theory Spec2Isabelle
  imports Complex_Main
begin

section \<open>Python strings\<close>

text \<open>
  A Python \<^verbatim>\<open>str\<close> is a sequence of Unicode code points; \<^verbatim>\<open>len\<close> and slicing count
  code points.  A string is modelled as the list of its code points.  ASCII literals of
  the source are written through \<open>u\<close>; other characters are given by their code point.
\<close>

type_synonym ustr = "nat list"

definition u :: "string \<Rightarrow> ustr" where
  "u s = map of_char s"

text \<open>\<^verbatim>\<open>str(n)\<close> for an integer: decimal digits, a leading minus sign when negative.\<close>

function str_nat :: "nat \<Rightarrow> ustr" where
  "str_nat n = (if n < 10 then [48 + n] else str_nat (n div 10) @ [48 + n mod 10])"
  by pat_completeness auto
termination
  by (relation "measure id") auto

definition str_int :: "int \<Rightarrow> ustr" where
  "str_int i = (if i < 0 then 45 # str_nat (nat (- i)) else str_nat (nat i))"

text \<open>\<^verbatim>\<open>sep.join(parts)\<close>\<close>

fun py_join :: "ustr \<Rightarrow> ustr list \<Rightarrow> ustr" where
  "py_join sep [] = []"
| "py_join sep [x] = x"
| "py_join sep (x # y # ys) = x @ sep @ py_join sep (y # ys)"

section \<open>Search results and the context assembler\<close>

text \<open>The dataclass \<^verbatim>\<open>SearchResult\<close> of \<^verbatim>\<open>rag_service.py\<close>.\<close>

record SearchResult =
  content :: ustr
  source :: ustr
  page :: int
  distance :: real
  score :: "real option"

text \<open>
  One entry of the sources list: the dict with the keys \<^verbatim>\<open>title\<close>, \<^verbatim>\<open>page\<close> and
  \<^verbatim>\<open>content_snippet\<close> (the key \<^verbatim>\<open>page\<close> is the field \<open>src_page\<close>).
\<close>

record source_entry =
  title :: ustr
  src_page :: int
  content_snippet :: ustr

text \<open>
  The body of the loop \<^verbatim>\<open>for i, result in enumerate(results, 1)\<close> of \<^verbatim>\<open>build_context\<close>:
  \<^verbatim>\<open>context_parts.append(f"[{i}] {result.content}\n(Nguon: {result.source}, trang {result.page})")\<close>
  (the label is the Vietnamese word spelled N, g, u, U+1ED3, n) and the append to
  \<^verbatim>\<open>sources\<close>.
\<close>

definition context_part :: "int \<Rightarrow> SearchResult \<Rightarrow> ustr" where
  "context_part i result =
     u ''['' @ str_int i @ u ''] '' @ content result @ [10] @
     u ''('' @ [78, 103, 117, 7891, 110] @ u '': '' @ source result @
     u '', trang '' @ str_int (page result) @ u '')''"

definition source_of :: "SearchResult \<Rightarrow> source_entry" where
  "source_of result =
     \<lparr>title = source result,
      src_page = page result,
      content_snippet =
        (if length (content result) > 200 then take 200 (content result) @ u ''...''
         else content result)\<rparr>"

fun build_context_loop ::
  "int \<Rightarrow> SearchResult list \<Rightarrow> ustr list \<Rightarrow> source_entry list \<Rightarrow> ustr list \<times> source_entry list"
where
  "build_context_loop i [] context_parts sources = (context_parts, sources)"
| "build_context_loop i (result # results) context_parts sources =
     build_context_loop (i + 1) results
       (context_parts @ [context_part i result]) (sources @ [source_of result])"

definition build_context :: "SearchResult list \<Rightarrow> ustr \<times> source_entry list" where
  "build_context results =
     (if results = [] then ([], [])
      else (case build_context_loop 1 results [] [] of
              (context_parts, sources) \<Rightarrow> (py_join (u ''\<newline>\<newline>'') context_parts, sources)))"

section \<open>Character classes and case mapping\<close>

text \<open>
  The Unicode tables behind \<^verbatim>\<open>str.lower\<close>, \<^verbatim>\<open>str.split\<close>, \<^verbatim>\<open>str.strip\<close> and the
  classes \<^verbatim>\<open>\w\<close> and \<^verbatim>\<open>\s\<close> of the \<^verbatim>\<open>re\<close> module belong to the Python runtime, not to
  the repository.  They are a parameter of the model: \<open>is_word\<close> is membership in
  \<^verbatim>\<open>\w\<close>, \<open>is_space\<close> is \<^verbatim>\<open>str.isspace\<close> (also \<^verbatim>\<open>\s\<close>), \<open>lower\<close> is \<^verbatim>\<open>str.lower\<close>
  (a function of the whole string: it may change the length and depends on context).
\<close>

record unicode =
  is_word :: "nat \<Rightarrow> bool"
  is_space :: "nat \<Rightarrow> bool"
  lower :: "ustr \<Rightarrow> ustr"

text \<open>The tables restricted to ASCII; they agree with Python on code points below 128.\<close>

definition ascii_is_word :: "nat \<Rightarrow> bool" where
  "ascii_is_word c =
     ((48 \<le> c \<and> c \<le> 57) \<or> (65 \<le> c \<and> c \<le> 90) \<or> c = 95 \<or> (97 \<le> c \<and> c \<le> 122))"

definition ascii_is_space :: "nat \<Rightarrow> bool" where
  "ascii_is_space c = ((9 \<le> c \<and> c \<le> 13) \<or> (28 \<le> c \<and> c \<le> 32))"

definition ascii_lower :: "ustr \<Rightarrow> ustr" where
  "ascii_lower s = map (\<lambda>c. if 65 \<le> c \<and> c \<le> 90 then c + 32 else c) s"

definition ascii_unicode :: unicode where
  "ascii_unicode = \<lparr>is_word = ascii_is_word, is_space = ascii_is_space, lower = ascii_lower\<rparr>"

section \<open>Safety gate (\<^verbatim>\<open>core/safety.py\<close>)\<close>

definition DEFAULT_SOS_KEYWORDS :: "ustr list" where
  "DEFAULT_SOS_KEYWORDS =
     [[116, 7921, 32, 116, 7917],
      [116, 7921, 32, 115, 225, 116],
      [99, 104, 7871, 116],
      [116, 7921, 32, 104, 7841, 105],
      [107, 7871, 116, 32, 116, 104, 250, 99, 32, 99, 117, 7897, 99, 32, 273, 7901, 105],
      [107, 104, 244, 110, 103, 32, 109, 117, 7889, 110, 32, 115, 7889, 110, 103],
      [109, 117, 7889, 110, 32, 99, 104, 7871, 116],
      [103, 105, 7871, 116, 32, 109, 236, 110, 104],
      [116, 7921, 32, 107, 7871, 116, 32, 108, 105, 7877, 117],
      [110, 104, 7843, 121, 32, 108, 7847, 117],
      [99, 7855, 116, 32, 116, 97, 121],
      [117, 7889, 110, 103, 32, 116, 104, 117, 7889, 99],
      [116, 7921, 32, 118, 7851, 110]]"

text \<open>
  The assertion \<^verbatim>\<open>\b\<close> of \<^verbatim>\<open>re\<close>: it holds between two neighbours (\<open>None\<close> is the start
  or the end of the string) when exactly one of them is a word character.
\<close>

definition is_word_opt :: "unicode \<Rightarrow> nat option \<Rightarrow> bool" where
  "is_word_opt U c = (case c of None \<Rightarrow> False | Some x \<Rightarrow> is_word U x)"

definition word_boundary :: "unicode \<Rightarrow> nat option \<Rightarrow> nat option \<Rightarrow> bool" where
  "word_boundary U prev nxt = (is_word_opt U prev \<noteq> is_word_opt U nxt)"

definition first_char :: "ustr \<Rightarrow> nat option" where
  "first_char s = (case s of [] \<Rightarrow> None | c # _ \<Rightarrow> Some c)"

text \<open>
  The pattern \<^verbatim>\<open>r'\b' + re.escape(keyword.lower()) + r'\b'\<close> tried at one position:
  \<open>prev\<close> is the character left of the position, \<open>s\<close> the text from the position on.
  \<^verbatim>\<open>re.escape\<close> makes the keyword match literally.
\<close>

definition pattern_matches_here :: "unicode \<Rightarrow> ustr \<Rightarrow> nat option \<Rightarrow> ustr \<Rightarrow> bool" where
  "pattern_matches_here U kw prev s =
     (word_boundary U prev (first_char s) \<and>
      take (length kw) s = kw \<and>
      word_boundary U (if kw = [] then prev else Some (last kw))
        (first_char (drop (length kw) s)))"

text \<open>\<^verbatim>\<open>re.search(pattern, text_lower)\<close>: the pattern is tried at every position, left to right.\<close>

fun re_search :: "unicode \<Rightarrow> ustr \<Rightarrow> nat option \<Rightarrow> ustr \<Rightarrow> bool" where
  "re_search U kw prev [] = pattern_matches_here U kw prev []"
| "re_search U kw prev (c # cs) =
     (pattern_matches_here U kw prev (c # cs) \<or> re_search U kw (Some c) cs)"

fun check_sos_loop :: "unicode \<Rightarrow> ustr \<Rightarrow> ustr list \<Rightarrow> bool" where
  "check_sos_loop U text_lower [] = False"
| "check_sos_loop U text_lower (keyword # keywords) =
     (if re_search U (lower U keyword) None text_lower then True
      else check_sos_loop U text_lower keywords)"

definition check_sos_keywords :: "unicode \<Rightarrow> ustr \<Rightarrow> ustr list option \<Rightarrow> bool" where
  "check_sos_keywords U text keywords =
     (let keywords = (case keywords of None \<Rightarrow> DEFAULT_SOS_KEYWORDS | Some ks \<Rightarrow> ks);
          text_lower = lower U text
      in check_sos_loop U text_lower keywords)"

text \<open>
  The property of the specification, in its words: the text contains the keyword as a
  whole word, case-insensitively.  An occurrence at offset \<open>i\<close> of the lower-cased text is
  a whole word when it is delimited on each side by a non-word character or by the end
  of the text.
\<close>

definition whole_word_at :: "unicode \<Rightarrow> ustr \<Rightarrow> ustr \<Rightarrow> nat \<Rightarrow> bool" where
  "whole_word_at U k t i =
     (take (length k) (drop i t) = k \<and>
      (i = 0 \<or> \<not> is_word U (t ! (i - 1))) \<and>
      (length t \<le> i + length k \<or> \<not> is_word U (t ! (i + length k))))"

definition contains_whole_word :: "unicode \<Rightarrow> ustr \<Rightarrow> ustr \<Rightarrow> bool" where
  "contains_whole_word U k text =
     (\<exists>i \<in> {0..length (lower U text)}. whole_word_at U (lower U k) (lower U text) i)"

section \<open>Exceptions\<close>

text \<open>
  The exceptions the pipeline distinguishes: \<^verbatim>\<open>VectorStoreError\<close> of
  \<^verbatim>\<open>core/vector_store.py\<close>, and any other \<^verbatim>\<open>Exception\<close>.  A call that may raise
  returns \<open>Inl\<close> of the exception.
\<close>

datatype error = VectorStoreError | OtherException

section \<open>The \<^verbatim>\<open>re\<close> patterns of the response sanitiser\<close>

text \<open>
  The two patterns of \<^verbatim>\<open>generate_response\<close> are sequences of these items: a literal
  character, an optional literal character (\<^verbatim>\<open>c?\<close>), one character of a class, and a
  class under \<^verbatim>\<open>*\<close> or \<^verbatim>\<open>+\<close>.
\<close>

datatype rx_item =
  Chr nat
| OptChr nat
| Cls "nat \<Rightarrow> bool"
| StarCls "nat \<Rightarrow> bool"
| PlusCls "nat \<Rightarrow> bool"

fun first_some :: "'a option list \<Rightarrow> 'a option" where
  "first_some [] = None"
| "first_some (None # xs) = first_some xs"
| "first_some (Some x # xs) = Some x"

text \<open>
  Matching at the start of \<open>s\<close>, as the backtracking matcher of \<^verbatim>\<open>re\<close> does: the
  quantifiers are greedy, so the longest run is tried first and shortened one character
  at a time; an optional character is taken first and given up when the rest fails.  The
  result is the length of the first match found in that order.
\<close>

fun rx_match :: "rx_item list \<Rightarrow> ustr \<Rightarrow> nat option" where
  "rx_match [] s = Some 0"
| "rx_match (Chr c # p) s =
     (case s of [] \<Rightarrow> None
      | x # xs \<Rightarrow> if x = c then map_option Suc (rx_match p xs) else None)"
| "rx_match (Cls P # p) s =
     (case s of [] \<Rightarrow> None
      | x # xs \<Rightarrow> if P x then map_option Suc (rx_match p xs) else None)"
| "rx_match (OptChr c # p) s =
     (case (case s of [] \<Rightarrow> None
            | x # xs \<Rightarrow> if x = c then map_option Suc (rx_match p xs) else None) of
        Some n \<Rightarrow> Some n
      | None \<Rightarrow> rx_match p s)"
| "rx_match (StarCls P # p) s =
     first_some (map (\<lambda>n. map_option ((+) n) (rx_match p (drop n s)))
                     (rev [0..<Suc (length (takeWhile P s))]))"
| "rx_match (PlusCls P # p) s =
     first_some (map (\<lambda>n. map_option ((+) n) (rx_match p (drop n s)))
                     (rev [1..<Suc (length (takeWhile P s))]))"

text \<open>
  \<^verbatim>\<open>re.sub(pattern, '', text)\<close>: the text is scanned from the left; a match is deleted and
  the scan goes on after it; where the pattern does not match the character is kept.
  The second argument counts the characters of the current match still to delete.
\<close>

fun re_sub_empty :: "rx_item list \<Rightarrow> nat \<Rightarrow> ustr \<Rightarrow> ustr" where
  "re_sub_empty p skip [] = []"
| "re_sub_empty p (Suc skip) (c # cs) = re_sub_empty p skip cs"
| "re_sub_empty p 0 (c # cs) =
     (case rx_match p (c # cs) of
        Some (Suc n) \<Rightarrow> re_sub_empty p n cs
      | _ \<Rightarrow> c # re_sub_empty p 0 cs)"

definition ascii_letter :: "nat \<Rightarrow> bool" where
  "ascii_letter c = ((65 \<le> c \<and> c \<le> 90) \<or> (97 \<le> c \<and> c \<le> 122))"

definition ascii_alnum :: "nat \<Rightarrow> bool" where
  "ascii_alnum c = (ascii_letter c \<or> (48 \<le> c \<and> c \<le> 57))"

text \<open>\<^verbatim>\<open>r'</?[a-zA-Z][a-zA-Z0-9]*[^>]*/?>'\<close> (60 is \<^verbatim>\<open><\<close>, 47 is \<^verbatim>\<open>/\<close>, 62 is \<^verbatim>\<open>>\<close>)\<close>

definition tag_pattern :: "rx_item list" where
  "tag_pattern =
     [Chr 60, OptChr 47, Cls ascii_letter, StarCls ascii_alnum, StarCls (\<lambda>c. c \<noteq> 62),
      OptChr 47, Chr 62]"

text \<open>\<^verbatim>\<open>r'</?\s*\w+\s*>'\<close>\<close>

definition malformed_tag_pattern :: "unicode \<Rightarrow> rx_item list" where
  "malformed_tag_pattern U =
     [Chr 60, OptChr 47, StarCls (is_space U), PlusCls (is_word U), StarCls (is_space U),
      Chr 62]"

text \<open>\<^verbatim>\<open>str.strip()\<close>\<close>

definition py_strip :: "unicode \<Rightarrow> ustr \<Rightarrow> ustr" where
  "py_strip U s = rev (dropWhile (is_space U) (rev (dropWhile (is_space U) s)))"

text \<open>The sanitising lines of \<^verbatim>\<open>generate_response\<close>: both substitutions, then \<^verbatim>\<open>strip\<close>.\<close>

definition sanitize :: "unicode \<Rightarrow> ustr \<Rightarrow> ustr" where
  "sanitize U generated_text =
     py_strip U (re_sub_empty (malformed_tag_pattern U) 0 (re_sub_empty tag_pattern 0 generated_text))"

section \<open>Response generator (\<^verbatim>\<open>generate_response\<close>, \<^verbatim>\<open>generate_response_stream\<close>)\<close>

text \<open>The string literals of the two functions, as code points.\<close>

definition default_system_prompt :: ustr where
  "default_system_prompt =
     [66, 7841, 110, 32, 108, 224, 32, 109, 7897, 116, 32, 99, 104, 117, 121, 234, 110, 32, 103,
      105, 97, 32, 116, 432, 32, 118, 7845, 110, 32, 116, 226, 109, 32, 108, 253, 32, 65, 73,
      32, 110, 104, 226, 110, 32, 225, 105, 44, 32, 116, 104, 7845, 117, 32, 99, 7843, 109, 32,
      118, 224, 32, 99, 104, 117, 121, 234, 110, 32, 110, 103, 104, 105, 7879, 112, 46, 10, 10,
      78, 104, 105, 7879, 109, 32, 118, 7909, 32, 99, 7911, 97, 32, 98, 7841, 110, 58, 10, 49,
      46, 32, 83, 7917, 32, 100, 7909, 110, 103, 32, 116, 104, 244, 110, 103, 32, 116, 105, 110,
      32, 116, 114, 111, 110, 103, 32, 91, 67, 79, 78, 84, 69, 88, 84, 93, 32, 273, 7875, 32,
      116, 114, 7843, 32, 108, 7901, 105, 32, 99, 226, 117, 32, 104, 7887, 105, 32, 99, 7911,
      97, 32, 110, 103, 432, 7901, 105, 32, 100, 249, 110, 103, 46, 10, 50, 46, 32, 76, 117,
      244, 110, 32, 108, 7855, 110, 103, 32, 110, 103, 104, 101, 32, 118, 224, 32, 120, 225, 99,
      32, 110, 104, 7853, 110, 32, 99, 7843, 109, 32, 120, 250, 99, 32, 116, 114, 432, 7899, 99,
      32, 107, 104, 105, 32, 273, 432, 97, 32, 108, 7901, 105, 32, 107, 104, 117, 121, 234, 110,
      46, 10, 51, 46, 32, 67, 104, 7881, 32, 116, 114, 7843, 32, 108, 7901, 105, 32, 100, 7921,
      97, 32, 116, 114, 234, 110, 32, 107, 105, 7871, 110, 32, 116, 104, 7913, 99, 32, 116, 226,
      109, 32, 108, 253, 32, 104, 7885, 99, 32, 118, 224, 32, 99, 111, 110, 116, 101, 120, 116,
      32, 273, 432, 7907, 99, 32, 99, 117, 110, 103, 32, 99, 7845, 112, 46, 10, 52, 46, 32, 75,
      72, 212, 78, 71, 32, 98, 7883, 97, 32, 273, 7863, 116, 32, 116, 104, 244, 110, 103, 32,
      116, 105, 110, 32, 107, 104, 244, 110, 103, 32, 99, 243, 32, 116, 114, 111, 110, 103, 32,
      99, 111, 110, 116, 101, 120, 116, 46, 10, 10, 42, 42, 81, 85, 65, 78, 32, 84, 82, 7884,
      78, 71, 32, 45, 32, 67, 225, 99, 104, 32, 116, 114, 237, 99, 104, 32, 100, 7851, 110, 32,
      110, 103, 117, 7891, 110, 58, 42, 42, 10, 45, 32, 75, 104, 105, 32, 115, 7917, 32, 100,
      7909, 110, 103, 32, 116, 104, 244, 110, 103, 32, 116, 105, 110, 32, 116, 7915, 32, 99,
      111, 110, 116, 101, 120, 116, 44, 32, 66, 7854, 84, 32, 66, 85, 7896, 67, 32, 116, 114,
      237, 99, 104, 32, 100, 7851, 110, 32, 110, 103, 117, 7891, 110, 32, 116, 104, 101, 111,
      32, 102, 111, 114, 109, 97, 116, 58, 32, 34, 84, 104, 101, 111, 32, 91, 84, 234, 110, 32,
      110, 103, 117, 7891, 110, 93, 44, 32, 116, 114, 97, 110, 103, 32, 88, 46, 46, 46, 34, 10,
      45, 32, 86, 237, 32, 100, 7909, 58, 32, 34, 84, 104, 101, 111, 32, 83, 7893, 32, 116, 97,
      121, 32, 83, 417, 32, 99, 7913, 117, 32, 84, 226, 109, 32, 108, 253, 44, 32, 116, 114, 97,
      110, 103, 32, 52, 53, 44, 32, 107, 7929, 32, 116, 104, 117, 7853, 116, 32, 116, 104, 7903,
      32, 115, 226, 117, 32, 103, 105, 250, 112, 32, 103, 105, 7843, 109, 32, 108, 111, 32, 226,
      117, 46, 46, 46, 34, 10, 45, 32, 78, 7871, 117, 32, 110, 103, 117, 7891, 110, 32, 107,
      104, 244, 110, 103, 32, 99, 243, 32, 116, 114, 97, 110, 103, 32, 99, 7909, 32, 116, 104,
      7875, 44, 32, 100, 249, 110, 103, 58, 32, 34, 84, 104, 101, 111, 32, 91, 84, 234, 110, 32,
      110, 103, 117, 7891, 110, 93, 46, 46, 46, 34, 10, 45, 32, 76, 85, 212, 78, 32, 116, 114,
      237, 99, 104, 32, 100, 7851, 110, 32, 237, 116, 32, 110, 104, 7845, 116, 32, 49, 32, 110,
      103, 117, 7891, 110, 32, 107, 104, 105, 32, 99, 243, 32, 116, 104, 244, 110, 103, 32, 116,
      105, 110, 32, 116, 7915, 32, 99, 111, 110, 116, 101, 120, 116, 46, 10, 10, 54, 46, 32, 84,
      114, 7843, 32, 108, 7901, 105, 32, 98, 7857, 110, 103, 32, 116, 105, 7871, 110, 103, 32,
      86, 105, 7879, 116, 32, 116, 7921, 32, 110, 104, 105, 234, 110, 44, 32, 7845, 109, 32,
      225, 112, 32, 118, 224, 32, 100, 7877, 32, 104, 105, 7875, 117, 46, 10, 55, 46, 32, 78,
      7871, 117, 32, 107, 104, 244, 110, 103, 32, 99, 243, 32, 273, 7911, 32, 116, 104, 244,
      110, 103, 32, 116, 105, 110, 32, 116, 114, 111, 110, 103, 32, 99, 111, 110, 116, 101, 120,
      116, 44, 32, 104, 227, 121, 32, 116, 104, 7915, 97, 32, 110, 104, 7853, 110, 32, 118, 224,
      32, 273, 7873, 32, 120, 117, 7845, 116, 32, 110, 103, 432, 7901, 105, 32, 100, 249, 110,
      103, 32, 116, 236, 109, 32, 107, 105, 7871, 109, 32, 99, 104, 117, 121, 234, 110, 32, 103,
      105, 97, 46, 10, 56, 46, 32, 75, 72, 212, 78, 71, 32, 115, 7917, 32, 100, 7909, 110, 103,
      32, 72, 84, 77, 76, 32, 116, 97, 103, 115, 32, 40, 110, 104, 432, 32, 60, 98, 108, 111,
      99, 107, 113, 117, 111, 116, 101, 62, 44, 32, 60, 112, 62, 44, 32, 60, 98, 114, 62, 44,
      32, 118, 46, 118, 46, 41, 46, 32, 67, 104, 7881, 32, 100, 249, 110, 103, 32, 112, 108, 97,
      105, 110, 32, 116, 101, 120, 116, 46, 10, 10, 71, 105, 7885, 110, 103, 32, 273, 105, 7879,
      117, 58, 32, 84, 104, 7845, 117, 32, 99, 7843, 109, 44, 32, 110, 104, 7865, 32, 110, 104,
      224, 110, 103, 44, 32, 107, 104, 244, 110, 103, 32, 112, 104, 225, 110, 32, 120, 233, 116,
      46]"

definition context_header :: ustr where
  "context_header =
     [10, 10, 91, 67, 79, 78, 84, 69, 88, 84, 32, 45, 32, 84, 104, 244, 110, 103, 32, 116, 105,
      110, 32, 116, 104, 97, 109, 32, 107, 104, 7843, 111, 93, 10]"

definition history_header :: ustr where
  "history_header =
     [10, 10, 91, 76, 7882, 67, 72, 32, 83, 7916, 32, 72, 7896, 73, 32, 84, 72, 79, 7840, 73,
      93, 10]"

definition question_header :: ustr where
  "question_header =
     [10, 91, 67, 194, 85, 32, 72, 7886, 73, 32, 72, 73, 7878, 78, 32, 84, 7840, 73, 93, 10, 78,
      103, 432, 7901, 105, 32, 100, 249, 110, 103, 58, 32]"

definition assistant_cue :: ustr where
  "assistant_cue =
     [10, 10, 84, 114, 7907, 32, 108, 253, 58]"

definition role_user :: ustr where
  "role_user =
     [78, 103, 432, 7901, 105, 32, 100, 249, 110, 103]"

definition role_assistant :: ustr where
  "role_assistant =
     [84, 114, 7907, 32, 108, 253]"

definition apology_message :: ustr where
  "apology_message =
     [88, 105, 110, 32, 108, 7895, 105, 44, 32, 116, 244, 105, 32, 103, 7863, 112, 32, 115,
      7921, 32, 99, 7889, 32, 107, 104, 105, 32, 120, 7917, 32, 108, 253, 32, 99, 226, 117, 32,
      104, 7887, 105, 32, 99, 7911, 97, 32, 98, 7841, 110, 46, 32, 86, 117, 105, 32, 108, 242,
      110, 103, 32, 116, 104, 7917, 32, 108, 7841, 105, 32, 115, 97, 117, 46]"

text \<open>
  One message of the chat history: a dict read with \<^verbatim>\<open>msg.get("role")\<close> and
  \<^verbatim>\<open>msg.get('content', '')\<close>; a missing key is \<open>None\<close>.
\<close>

record chat_message =
  msg_role :: "ustr option"
  msg_content :: "ustr option"

definition history_line :: "chat_message \<Rightarrow> ustr" where
  "history_line msg =
     (if msg_role msg = Some (u ''user'') then role_user else role_assistant) @ u '': '' @
     (case msg_content msg of None \<Rightarrow> [] | Some c \<Rightarrow> c) @ [10]"

text \<open>The prompt both functions build; \<^verbatim>\<open>chat_history[-5:]\<close> keeps the last five messages.\<close>

definition build_prompt ::
  "ustr option \<Rightarrow> ustr \<Rightarrow> chat_message list option \<Rightarrow> ustr \<Rightarrow> ustr" where
  "build_prompt system_prompt context chat_history query =
     (let system_prompt = (case system_prompt of None \<Rightarrow> default_system_prompt | Some p \<Rightarrow> p);
          prompt = system_prompt @ context_header @ context @ history_header;
          prompt = (case chat_history of
                      None \<Rightarrow> prompt
                    | Some h \<Rightarrow> foldl (\<lambda>pr msg. pr @ history_line msg) prompt (drop (length h - 5) h))
      in prompt @ question_header @ query @ assistant_cue)"

text \<open>
  The generation capability (\<^verbatim>\<open>google.generativeai\<close>) is external.  \<open>generate_content\<close>
  stands for \<^verbatim>\<open>genai.GenerativeModel(model_name).generate_content(prompt, ...).text\<close>, which
  returns the text or raises.  \<open>generate_content_stream\<close> is the call with
  \<^verbatim>\<open>stream=True\<close>: it raises, or returns the iterator, given as the list of its steps,
  each step the text of a chunk or an exception raised while iterating.
\<close>

record llm =
  generate_content :: "string \<Rightarrow> ustr \<Rightarrow> error + ustr"
  generate_content_stream :: "string \<Rightarrow> ustr \<Rightarrow> error + (error + ustr) list"

text \<open>
  The module-level \<^verbatim>\<open>_last_working_model\<close>, and the log of
  \<^verbatim>\<open>logger.info(f"Attempting to generate with model: {model_name}")\<close>.
\<close>

record gen_state =
  last_working_model :: "string option"
  attempts :: "string list"

definition candidate_models :: "string list" where
  "candidate_models =
     [''gemini-2.0-flash-exp'', ''gemini-flash-latest'', ''gemini-1.5-flash'', ''gemini-pro'']"

text \<open>
  \<^verbatim>\<open>if _last_working_model and _last_working_model in candidate_models:\<close> remove it and
  insert it at position 0.
\<close>

definition prioritized_models :: "string option \<Rightarrow> string list" where
  "prioritized_models last_model =
     (case last_model of
        None \<Rightarrow> candidate_models
      | Some m \<Rightarrow>
          if m \<noteq> [] \<and> m \<in> set candidate_models then m # remove1 m candidate_models
          else candidate_models)"

text \<open>
  The loop \<^verbatim>\<open>for model_name in candidate_models\<close> with its inner \<^verbatim>\<open>try\<close>: a model that
  raises is logged and skipped; when the list is exhausted the apology is returned.  (The
  outer handler of \<^verbatim>\<open>generate_response\<close> returns the same apology; with a well-typed
  history the code before the loop does not raise.)
\<close>

fun try_models :: "unicode \<Rightarrow> llm \<Rightarrow> ustr \<Rightarrow> string list \<Rightarrow> gen_state \<Rightarrow> ustr \<times> gen_state" where
  "try_models U L prompt [] st = (apology_message, st)"
| "try_models U L prompt (model_name # rest) st =
     (let st = st\<lparr>attempts := attempts st @ [model_name]\<rparr> in
      case generate_content L model_name prompt of
        Inr generated_text \<Rightarrow>
          (sanitize U generated_text, st\<lparr>last_working_model := Some model_name\<rparr>)
      | Inl e \<Rightarrow> try_models U L prompt rest st)"

definition generate_response ::
  "unicode \<Rightarrow> llm \<Rightarrow> gen_state \<Rightarrow> ustr \<Rightarrow> ustr \<Rightarrow> chat_message list option \<Rightarrow> ustr option \<Rightarrow>
   ustr \<times> gen_state" where
  "generate_response U L st query context chat_history system_prompt =
     try_models U L (build_prompt system_prompt context chat_history query)
       (prioritized_models (last_working_model st)) st"

definition stream_candidate_models :: "string list" where
  "stream_candidate_models =
     [''gemini-2.0-flash-exp'', ''gemini-flash-latest'', ''gemini-1.5-flash'']"

text \<open>The connection loop of the streaming variant: the first model that connects.\<close>

fun connect_stream :: "llm \<Rightarrow> ustr \<Rightarrow> string list \<Rightarrow> (error + ustr) list option" where
  "connect_stream L prompt [] = None"
| "connect_stream L prompt (model_name # rest) =
     (case generate_content_stream L model_name prompt of
        Inr response_iterator \<Rightarrow> Some response_iterator
      | Inl e \<Rightarrow> connect_stream L prompt rest)"

text \<open>
  The loop \<^verbatim>\<open>for chunk in response_iterator: if chunk.text: yield chunk.text\<close>.  An
  exception raised while iterating reaches the outer handler, which yields the apology.
\<close>

fun stream_chunks :: "(error + ustr) list \<Rightarrow> ustr list" where
  "stream_chunks [] = []"
| "stream_chunks (Inr chunk_text # rest) =
     (if chunk_text \<noteq> [] then chunk_text # stream_chunks rest else stream_chunks rest)"
| "stream_chunks (Inl e # rest) = [apology_message]"

text \<open>The fragments the generator yields, in order.\<close>

definition generate_response_stream ::
  "llm \<Rightarrow> ustr \<Rightarrow> ustr \<Rightarrow> chat_message list option \<Rightarrow> ustr option \<Rightarrow> ustr list" where
  "generate_response_stream L query context chat_history system_prompt =
     (case connect_stream L (build_prompt system_prompt context chat_history query)
             stream_candidate_models of
        None \<Rightarrow> [apology_message]
      | Some response_iterator \<Rightarrow> stream_chunks response_iterator)"

section \<open>Document store, lexical index and hybrid retrieval\<close>

text \<open>
  The metadata dict of a chunk, read with \<^verbatim>\<open>metadata.get('source', 'Unknown')\<close> and
  \<^verbatim>\<open>metadata.get('page', 0)\<close>; the dict \<^verbatim>\<open>filter_metadata\<close>; an embedding vector.  Floats
  are modelled as real numbers.  In the list \<^verbatim>\<open>metadatas\<close> that the store returns, the entry
  of a chunk stored without metadata is \<^verbatim>\<open>None\<close>, so the entries are optional.
\<close>

record metadata =
  md_source :: "ustr option"
  md_page :: "int option"

type_synonym where_filter = "(ustr \<times> ustr) list"

type_synonym embedding = "real list"

text \<open>
  The result of \<^verbatim>\<open>collection.query\<close>: \<^verbatim>\<open>vector_results['documents']\<close> and
  \<^verbatim>\<open>vector_results['distances']\<close>, one inner list per query embedding.
\<close>

record query_result =
  qr_documents :: "ustr list list"
  qr_distances :: "real list list"

text \<open>
  A Chroma collection (external): \<^verbatim>\<open>collection.get(where=..., include=["documents",
  "metadatas"])\<close> and \<^verbatim>\<open>collection.query(query_embeddings=[e], n_results=n, where=...,
  include=[...])\<close>.  Either call may raise.
\<close>

record collection =
  coll_get :: "where_filter option \<Rightarrow> error + (ustr list \<times> metadata option list)"
  coll_query :: "embedding \<Rightarrow> int \<Rightarrow> where_filter option \<Rightarrow> error + query_result"

text \<open>
  The lexical index \<^verbatim>\<open>BM25Okapi(tokenized_corpus)\<close> of the package \<^verbatim>\<open>rank_bm25\<close>
  (external): the object is determined by the tokenized corpus it was built from.
\<close>

datatype bm25 = BM25Okapi "ustr list list"

text \<open>
  The external services of the retriever: the Chroma client (\<open>chroma_collection\<close> is
  what \<^verbatim>\<open>get_chroma_client().get_or_create_collection(...)\<close> gives, or the exception it
  raises), the constructor and the scoring method of the lexical index, and
  \<^verbatim>\<open>genai.embed_content\<close>.
\<close>

record backend =
  chroma_collection :: "error + collection"
  bm25_new :: "ustr list list \<Rightarrow> error + bm25"
  bm25_get_scores :: "bm25 \<Rightarrow> ustr list \<Rightarrow> error + real list"
  embed_content :: "ustr \<Rightarrow> error + embedding"

text \<open>
  \<^verbatim>\<open>get_collection\<close> of \<^verbatim>\<open>core/vector_store.py\<close>: every exception is re-raised as
  \<^verbatim>\<open>VectorStoreError\<close>.
\<close>

definition get_collection :: "backend \<Rightarrow> error + collection" where
  "get_collection B =
     (case chroma_collection B of Inl e \<Rightarrow> Inl VectorStoreError | Inr c \<Rightarrow> Inr c)"

text \<open>\<^verbatim>\<open>generate_embedding\<close>: the exception is logged and re-raised.\<close>

definition generate_embedding :: "backend \<Rightarrow> ustr \<Rightarrow> error + embedding" where
  "generate_embedding B text = (case embed_content B text of Inl e \<Rightarrow> Inl e | Inr r \<Rightarrow> Inr r)"

text \<open>\<^verbatim>\<open>str.split()\<close> without argument: the maximal runs of non-space characters.\<close>

fun split_loop :: "unicode \<Rightarrow> ustr \<Rightarrow> ustr \<Rightarrow> ustr list" where
  "split_loop U cur [] = (if cur = [] then [] else [cur])"
| "split_loop U cur (c # cs) =
     (if is_space U c then (if cur = [] then split_loop U [] cs else cur # split_loop U [] cs)
      else split_loop U (cur @ [c]) cs)"

definition py_split :: "unicode \<Rightarrow> ustr \<Rightarrow> ustr list" where
  "py_split U s = split_loop U [] s"

text \<open>
  The caching attributes of \<^verbatim>\<open>RAGService\<close>.  \<open>store_fetches\<close> is instrumentation: it
  counts the calls of \<^verbatim>\<open>collection.get\<close> made by \<^verbatim>\<open>_get_bm25_index\<close> (each follows the log
  line "Rebuilding BM25 index").
\<close>

record rag_service =
  bm25_cache :: "bm25 option"
  bm25_cache_time :: "real option"
  bm25_cache_ttl :: real
  corpus_cache :: "ustr list option"
  corpus_metadatas :: "metadata option list option"
  store_fetches :: nat

text \<open>The state \<^verbatim>\<open>__init__\<close> sets up.\<close>

definition init_rag_service :: rag_service where
  "init_rag_service =
     \<lparr>bm25_cache = None, bm25_cache_time = None, bm25_cache_ttl = 300,
      corpus_cache = None, corpus_metadatas = None, store_fetches = 0\<rparr>"

text \<open>\<^verbatim>\<open>x or []\<close> for an optional list.\<close>

definition or_empty :: "'a list option \<Rightarrow> 'a list" where
  "or_empty x = (case x of None \<Rightarrow> [] | Some xs \<Rightarrow> xs)"

text \<open>The validity test at the head of \<^verbatim>\<open>_get_bm25_index\<close>.\<close>

definition cache_valid :: "rag_service \<Rightarrow> real \<Rightarrow> bool" where
  "cache_valid st current_time =
     (case bm25_cache st of
        None \<Rightarrow> False
      | Some _ \<Rightarrow>
          (case bm25_cache_time st of
             None \<Rightarrow> False
           | Some t \<Rightarrow> current_time - t < bm25_cache_ttl st))"

text \<open>
  \<^verbatim>\<open>_get_bm25_index\<close>; \<open>current_time\<close> is the value of \<^verbatim>\<open>time.time()\<close>.  The result is
  the returned triple or the exception raised, with the state after the call.
\<close>

definition get_bm25_index ::
  "backend \<Rightarrow> unicode \<Rightarrow> rag_service \<Rightarrow> real \<Rightarrow> collection \<Rightarrow> where_filter option \<Rightarrow>
   (error + bm25 option \<times> ustr list \<times> metadata option list) \<times> rag_service" where
  "get_bm25_index B U st current_time coll filter_metadata =
     (if cache_valid st current_time
      then (Inr (bm25_cache st, or_empty (corpus_cache st), or_empty (corpus_metadatas st)), st)
      else
        (let st = st\<lparr>store_fetches := store_fetches st + 1\<rparr> in
         case coll_get coll filter_metadata of
           Inl e \<Rightarrow> (Inl e, st)
         | Inr (documents, metadatas) \<Rightarrow>
             if documents = [] then (Inr (None, [], []), st)
             else
               (let tokenized_corpus = map (\<lambda>doc. py_split U (lower U doc)) documents in
                case bm25_new B tokenized_corpus of
                  Inl e \<Rightarrow> (Inl e, st)
                | Inr bm25 \<Rightarrow>
                    (Inr (Some bm25, documents, metadatas),
                     st\<lparr>bm25_cache := Some bm25,
                        corpus_cache := Some documents,
                        corpus_metadatas := Some metadatas,
                        bm25_cache_time := Some current_time\<rparr>))))"

definition invalidate_bm25_cache :: "rag_service \<Rightarrow> rag_service" where
  "invalidate_bm25_cache st =
     st\<lparr>bm25_cache := None, bm25_cache_time := None, corpus_cache := None,
        corpus_metadatas := None\<rparr>"

text \<open>
  \<^verbatim>\<open>max_bm25 = max(bm25_scores) if max(bm25_scores) > 0 else 1\<close> and the division of
  every score by it; \<^verbatim>\<open>max\<close> of an empty sequence raises.
\<close>

definition normalize_scores :: "real list \<Rightarrow> error + real list" where
  "normalize_scores bm25_scores =
     (if bm25_scores = [] then Inl OtherException
      else
        (let max_bm25 = (if Max (set bm25_scores) > 0 then Max (set bm25_scores) else 1)
         in Inr (map (\<lambda>score. score / max_bm25) bm25_scores)))"

text \<open>
  The loop that fills \<^verbatim>\<open>vector_distance_map\<close>, a dict keyed by the chunk text:
  \<^verbatim>\<open>vector_distance_map[doc] = 1 - (distance / 2)\<close> with
  \<^verbatim>\<open>distance = vector_results['distances'][0][i]\<close>; an index out of range raises.
\<close>

fun distance_map_loop ::
  "real list list \<Rightarrow> nat \<Rightarrow> ustr list \<Rightarrow> (ustr \<rightharpoonup> real) \<Rightarrow> error + (ustr \<rightharpoonup> real)" where
  "distance_map_loop distances i [] vector_distance_map = Inr vector_distance_map"
| "distance_map_loop distances i (doc # docs) vector_distance_map =
     (case distances of
        [] \<Rightarrow> Inl OtherException
      | d0 # _ \<Rightarrow>
          if i < length d0
          then (let distance = d0 ! i; similarity = 1 - (distance / 2)
                in distance_map_loop distances (i + 1) docs (vector_distance_map(doc \<mapsto> similarity)))
          else Inl OtherException)"

definition build_distance_map :: "query_result \<Rightarrow> error + (ustr \<rightharpoonup> real)" where
  "build_distance_map vector_results =
     (case qr_documents vector_results of
        [] \<Rightarrow> Inr Map.empty
      | docs0 # _ \<Rightarrow> distance_map_loop (qr_distances vector_results) 0 docs0 Map.empty)"

text \<open>
  The loop \<^verbatim>\<open>for i, doc in enumerate(documents)\<close> that builds \<^verbatim>\<open>combined_results\<close>;
  \<^verbatim>\<open>metadatas[i] if metadatas else {}\<close> and \<^verbatim>\<open>bm25_scores_norm[i]\<close> raise when out of range,
  and \<^verbatim>\<open>metadata.get\<close> raises when the entry \<^verbatim>\<open>metadatas[i]\<close> is \<^verbatim>\<open>None\<close>.
\<close>

fun combine_loop ::
  "real \<Rightarrow> (ustr \<rightharpoonup> real) \<Rightarrow> real list \<Rightarrow> metadata option list \<Rightarrow> nat \<Rightarrow> ustr list \<Rightarrow>
   SearchResult list \<Rightarrow> error + SearchResult list" where
  "combine_loop alpha vector_distance_map bm25_scores_norm metadatas i [] combined_results =
     Inr combined_results"
| "combine_loop alpha vector_distance_map bm25_scores_norm metadatas i (doc # docs)
     combined_results =
     (if metadatas \<noteq> [] \<and> length metadatas \<le> i then Inl OtherException
      else if length bm25_scores_norm \<le> i then Inl OtherException
      else
        (let metadata = (if metadatas \<noteq> [] then metadatas ! i
                         else Some \<lparr>md_source = None, md_page = None\<rparr>);
             bm25_score = bm25_scores_norm ! i;
             vector_score = (case vector_distance_map doc of None \<Rightarrow> 0 | Some v \<Rightarrow> v);
             hybrid_score = alpha * vector_score + (1 - alpha) * bm25_score
         in case metadata of
              None \<Rightarrow> Inl OtherException
            | Some metadata \<Rightarrow>
                combine_loop alpha vector_distance_map bm25_scores_norm metadatas (i + 1) docs
                  (combined_results @
                   [\<lparr>content = doc,
                     source = (case md_source metadata of None \<Rightarrow> u ''Unknown'' | Some s \<Rightarrow> s),
                     page = (case md_page metadata of None \<Rightarrow> 0 | Some p \<Rightarrow> p),
                     distance = 1 - hybrid_score,
                     score = Some hybrid_score\<rparr>])))"

text \<open>The sort key \<^verbatim>\<open>lambda x: x.score if x.score else 0\<close>.\<close>

definition score_key :: "SearchResult \<Rightarrow> real" where
  "score_key x = (case score x of None \<Rightarrow> 0 | Some s \<Rightarrow> if s \<noteq> 0 then s else 0)"

text \<open>
  \<^verbatim>\<open>list.sort(key=..., reverse=True)\<close>: descending by key, elements with equal keys in
  their original order.
\<close>

definition sort_descending :: "('a \<Rightarrow> real) \<Rightarrow> 'a list \<Rightarrow> 'a list" where
  "sort_descending key xs = sort_key (\<lambda>x. - key x) xs"

text \<open>The slice \<^verbatim>\<open>xs[:k]\<close>: a negative \<open>k\<close> counts from the end.\<close>

definition py_take :: "int \<Rightarrow> 'a list \<Rightarrow> 'a list" where
  "py_take k xs = (if k < 0 then take (nat (int (length xs) + k)) xs else take (nat k) xs)"

text \<open>
  Steps 1 to 3 of \<^verbatim>\<open>hybrid_search\<close> once the index is at hand: lexical scores, vector
  query, fusion, sort and cut.
\<close>

definition fuse_and_rank ::
  "backend \<Rightarrow> unicode \<Rightarrow> collection \<Rightarrow> bm25 \<Rightarrow> ustr list \<Rightarrow> metadata option list \<Rightarrow> ustr \<Rightarrow>
   int \<Rightarrow>
   where_filter option \<Rightarrow> real \<Rightarrow> embedding option \<Rightarrow> error + SearchResult list" where
  "fuse_and_rank B U collection bm25 documents metadatas query top_k filter_metadata alpha
     query_embedding =
     (let tokenized_query = py_split U (lower U query) in
      case bm25_get_scores B bm25 tokenized_query of
        Inl e \<Rightarrow> Inl e
      | Inr bm25_scores \<Rightarrow>
     (case normalize_scores bm25_scores of
        Inl e \<Rightarrow> Inl e
      | Inr bm25_scores_norm \<Rightarrow>
     (case (case query_embedding of None \<Rightarrow> generate_embedding B query | Some e \<Rightarrow> Inr e) of
        Inl e \<Rightarrow> Inl e
      | Inr query_embedding \<Rightarrow>
     (case coll_query collection query_embedding
             (min (top_k * 2) (int (length documents))) filter_metadata of
        Inl e \<Rightarrow> Inl e
      | Inr vector_results \<Rightarrow>
     (case build_distance_map vector_results of
        Inl e \<Rightarrow> Inl e
      | Inr vector_distance_map \<Rightarrow>
     (case combine_loop alpha vector_distance_map bm25_scores_norm metadatas 0 documents [] of
        Inl e \<Rightarrow> Inl e
      | Inr combined_results \<Rightarrow>
          Inr (py_take top_k (sort_descending score_key combined_results))))))))"

text \<open>The body of the \<^verbatim>\<open>try\<close> block of \<^verbatim>\<open>hybrid_search\<close>.\<close>

definition hybrid_search_try ::
  "backend \<Rightarrow> unicode \<Rightarrow> rag_service \<Rightarrow> real \<Rightarrow> ustr \<Rightarrow> int \<Rightarrow> where_filter option \<Rightarrow> real \<Rightarrow>
   embedding option \<Rightarrow> (error + SearchResult list) \<times> rag_service" where
  "hybrid_search_try B U st current_time query top_k filter_metadata alpha query_embedding =
     (case get_collection B of
        Inl e \<Rightarrow> (Inl e, st)
      | Inr collection \<Rightarrow>
          (case get_bm25_index B U st current_time collection filter_metadata of
             (Inl e, st) \<Rightarrow> (Inl e, st)
           | (Inr (bm25, documents, metadatas), st) \<Rightarrow>
               (case bm25 of
                  None \<Rightarrow> (Inr [], st)
                | Some bm25 \<Rightarrow>
                    if documents = [] then (Inr [], st)
                    else (fuse_and_rank B U collection bm25 documents metadatas query top_k
                            filter_metadata alpha query_embedding, st))))"

text \<open>
  \<^verbatim>\<open>hybrid_search\<close>: both handlers (\<^verbatim>\<open>except VectorStoreError\<close> and
  \<^verbatim>\<open>except Exception\<close>) log the error and return the empty list.
\<close>

definition hybrid_search ::
  "backend \<Rightarrow> unicode \<Rightarrow> rag_service \<Rightarrow> real \<Rightarrow> ustr \<Rightarrow> int \<Rightarrow> where_filter option \<Rightarrow> real \<Rightarrow>
   embedding option \<Rightarrow> SearchResult list \<times> rag_service" where
  "hybrid_search B U st current_time query top_k filter_metadata alpha query_embedding =
     (case hybrid_search_try B U st current_time query top_k filter_metadata alpha
             query_embedding of
        (Inl VectorStoreError, st) \<Rightarrow> ([], st)
      | (Inl OtherException, st) \<Rightarrow> ([], st)
      | (Inr top_results, st) \<Rightarrow> (top_results, st))"

text \<open>
  \<^verbatim>\<open>rerank_results\<close>: \<^verbatim>\<open>sorted(results, key=lambda x: x.distance)[:top_k]\<close>; the handler
  of the \<^verbatim>\<open>try\<close> is never reached, since sorting by a float key does not raise.
\<close>

definition rerank_results :: "ustr \<Rightarrow> SearchResult list \<Rightarrow> int \<Rightarrow> SearchResult list" where
  "rerank_results query results top_k =
     (if results = [] then [] else py_take top_k (sort_key distance results))"

section \<open>Result cache (\<^verbatim>\<open>core/semantic_cache.py\<close>)\<close>

text \<open>
  The library functions the cache relies on: \<open>embedding_hexdigest\<close> is
  \<^verbatim>\<open>hashlib.sha256(json.dumps(e, sort_keys=True).encode('utf-8')).hexdigest()\<close>,
  \<open>dumps_cache_data\<close> is \<^verbatim>\<open>json.dumps({'response': r, 'sources': s}, ensure_ascii=False)\<close>,
  and \<open>loads_cache_data\<close> is \<^verbatim>\<open>json.loads\<close> followed by the reads of \<^verbatim>\<open>data['response']\<close>
  and \<^verbatim>\<open>data['sources']\<close>, which raises on a malformed payload.
\<close>

record json_codec =
  embedding_hexdigest :: "embedding \<Rightarrow> ustr"
  dumps_cache_data :: "ustr \<times> source_entry list \<Rightarrow> ustr"
  loads_cache_data :: "ustr \<Rightarrow> error + ustr \<times> source_entry list"

text \<open>The attributes of \<^verbatim>\<open>SemanticCache\<close> and the global instance.\<close>

record SemanticCache =
  ttl :: real
  cache_prefix :: ustr

definition semantic_cache :: SemanticCache where
  "semantic_cache = \<lparr>ttl = 3600, cache_prefix = u ''rag_cache:''\<rparr>"

text \<open>
  The Redis side.  \<open>redis_client\<close> is the module global of \<^verbatim>\<open>core/redis.py\<close>: \<open>None\<close>
  until \<^verbatim>\<open>init_redis\<close> has run, otherwise the key space of the server, each key with its
  value and the time at which it expires.  \<open>redis_up\<close> tells whether commands reach the
  server (they raise otherwise).  \<open>set_calls\<close> is instrumentation: it counts the calls
  of \<^verbatim>\<open>SemanticCache.set\<close>.
\<close>

record redis_world =
  redis_client :: "(ustr \<rightharpoonup> ustr \<times> real) option"
  redis_up :: bool
  set_calls :: nat

text \<open>\<^verbatim>\<open>_generate_cache_key\<close>: the prefix and the first 16 characters of the digest.\<close>

definition generate_cache_key :: "json_codec \<Rightarrow> SemanticCache \<Rightarrow> embedding \<Rightarrow> ustr" where
  "generate_cache_key J C query_embedding =
     (let hash_digest = take 16 (embedding_hexdigest J query_embedding)
      in cache_prefix C @ hash_digest)"

text \<open>The Redis command \<^verbatim>\<open>GET\<close> at time \<open>now\<close>: an expired key is absent.\<close>

definition redis_get :: "(ustr \<rightharpoonup> ustr \<times> real) \<Rightarrow> real \<Rightarrow> ustr \<Rightarrow> ustr option" where
  "redis_get db now key =
     (case db key of
        None \<Rightarrow> None
      | Some (v, expires) \<Rightarrow> if now < expires then Some v else None)"

text \<open>
  \<^verbatim>\<open>SemanticCache.get\<close>.  Every exception (no client, server down, malformed payload) is
  caught and gives \<open>None\<close>.
\<close>

definition semantic_cache_get ::
  "json_codec \<Rightarrow> SemanticCache \<Rightarrow> redis_world \<Rightarrow> real \<Rightarrow> embedding \<Rightarrow>
   (ustr \<times> source_entry list) option" where
  "semantic_cache_get J C W now query_embedding =
     (case redis_client W of
        None \<Rightarrow> None
      | Some db \<Rightarrow>
          if \<not> redis_up W then None
          else
            (let cache_key = generate_cache_key J C query_embedding in
             case redis_get db now cache_key of
               None \<Rightarrow> None
             | Some cached_data \<Rightarrow>
                 if cached_data = [] then None
                 else (case loads_cache_data J cached_data of
                         Inl e \<Rightarrow> None
                       | Inr (response, sources) \<Rightarrow> Some (response, sources))))"

text \<open>
  \<^verbatim>\<open>SemanticCache.set\<close>: \<^verbatim>\<open>SETEX key ttl value\<close>, which the server refuses for a TTL that is
  not positive.  Returns whether the entry was written.
\<close>

definition semantic_cache_set ::
  "json_codec \<Rightarrow> SemanticCache \<Rightarrow> redis_world \<Rightarrow> real \<Rightarrow> embedding \<Rightarrow> ustr \<Rightarrow>
   source_entry list \<Rightarrow> bool \<times> redis_world" where
  "semantic_cache_set J C W now query_embedding response sources =
     (let W = W\<lparr>set_calls := set_calls W + 1\<rparr> in
      case redis_client W of
        None \<Rightarrow> (False, W)
      | Some db \<Rightarrow>
          if \<not> redis_up W \<or> ttl C \<le> 0 then (False, W)
          else
            (let cache_key = generate_cache_key J C query_embedding;
                 cache_data = dumps_cache_data J (response, sources)
             in (True, W\<lparr>redis_client := Some (db(cache_key \<mapsto> (cache_data, now + ttl C)))\<rparr>)))"

section \<open>Pipeline orchestration (\<^verbatim>\<open>load_sys_prompt\<close>, \<^verbatim>\<open>rag_query\<close>)\<close>

definition no_context_message :: ustr where
  "no_context_message =
     [88, 105, 110, 32, 108, 7895, 105, 44, 32, 116, 244, 105, 32, 107, 104, 244, 110, 103, 32,
      116, 236, 109, 32, 116, 104, 7845, 121, 32, 116, 104, 244, 110, 103, 32, 116, 105, 110,
      32, 112, 104, 249, 32, 104, 7907, 112, 32, 116, 114, 111, 110, 103, 32, 99, 417, 32, 115,
      7903, 32, 107, 105, 7871, 110, 32, 116, 104, 7913, 99, 32, 99, 7911, 97, 32, 109, 236,
      110, 104, 32, 273, 7875, 32, 116, 114, 7843, 32, 108, 7901, 105, 32, 99, 226, 117, 32,
      104, 7887, 105, 32, 110, 224, 121, 46, 10, 10, 84, 244, 105, 32, 107, 104, 117, 121, 7871,
      110, 32, 107, 104, 237, 99, 104, 32, 98, 7841, 110, 58, 10, 45, 32, 76, 105, 234, 110, 32,
      104, 7879, 32, 118, 7899, 105, 32, 99, 104, 117, 121, 234, 110, 32, 103, 105, 97, 32, 116,
      226, 109, 32, 108, 253, 32, 273, 7875, 32, 273, 432, 7907, 99, 32, 116, 432, 32, 118,
      7845, 110, 32, 116, 114, 7921, 99, 32, 116, 105, 7871, 112, 10, 45, 32, 272, 7863, 116,
      32, 99, 226, 117, 32, 104, 7887, 105, 32, 107, 104, 225, 99, 32, 104, 111, 7863, 99, 32,
      100, 105, 7877, 110, 32, 273, 7841, 116, 32, 108, 7841, 105, 32, 99, 226, 117, 32, 104,
      7887, 105, 10, 45, 32, 67, 104, 105, 97, 32, 115, 7867, 32, 116, 104, 234, 109, 32, 118,
      7873, 32, 116, 236, 110, 104, 32, 104, 117, 7889, 110, 103, 32, 99, 7911, 97, 32, 98,
      7841, 110, 32, 273, 7875, 32, 116, 244, 105, 32, 99, 243, 32, 116, 104, 7875, 32, 104,
      7895, 32, 116, 114, 7907, 32, 116, 7889, 116, 32, 104, 417, 110]"

definition pipeline_error_message :: ustr where
  "pipeline_error_message =
     [88, 105, 110, 32, 108, 7895, 105, 44, 32, 99, 243, 32, 108, 7895, 105, 32, 120, 7843, 121,
      32, 114, 97, 46, 32, 86, 117, 105, 32, 108, 242, 110, 103, 32, 116, 104, 7917, 32, 108,
      7841, 105, 46]"

text \<open>The module-level cache of the custom system prompt.\<close>

record prompt_cache =
  sys_prompt_cache :: "ustr option"
  sys_prompt_cache_time :: "real option"

text \<open>
  \<^verbatim>\<open>load_sys_prompt\<close>.  \<open>db_result\<close> is the outcome of the query for the setting
  \<^verbatim>\<open>sys_prompt\<close>: an exception, or the value of the row (\<open>None\<close> when there is no row).
\<close>

definition load_sys_prompt ::
  "error + ustr option \<Rightarrow> prompt_cache \<Rightarrow> real \<Rightarrow> ustr option \<times> prompt_cache" where
  "load_sys_prompt db_result pc current_time =
     (if (case sys_prompt_cache pc of
            None \<Rightarrow> False
          | Some _ \<Rightarrow> (case sys_prompt_cache_time pc of
                        None \<Rightarrow> False
                      | Some t \<Rightarrow> current_time - t < 300))
      then (sys_prompt_cache pc, pc)
      else
        (case db_result of
           Inl e \<Rightarrow> (None, pc)
         | Inr setting \<Rightarrow>
             (case setting of
                Some v \<Rightarrow>
                  if v \<noteq> []
                  then (Some v, pc\<lparr>sys_prompt_cache := Some v,
                                    sys_prompt_cache_time := Some current_time\<rparr>)
                  else (None, pc\<lparr>sys_prompt_cache_time := Some current_time\<rparr>)
              | None \<Rightarrow> (None, pc\<lparr>sys_prompt_cache_time := Some current_time\<rparr>))))"

text \<open>
  The mutable state the pipeline touches, and the values \<^verbatim>\<open>time.time()\<close> and the Redis
  clock have at the steps of one call.
\<close>

record world =
  svc :: rag_service
  gen :: gen_state
  prompts :: prompt_cache
  cache :: redis_world

record clock =
  t_cache_get :: real
  t_search :: real
  t_prompt :: real
  t_cache_set :: real

text \<open>
  The body of the \<^verbatim>\<open>try\<close> block of \<^verbatim>\<open>rag_query\<close>.  Of its steps only
  \<^verbatim>\<open>generate_embedding\<close> can raise: the others catch their exceptions themselves.
\<close>

definition rag_query_try ::
  "backend \<Rightarrow> unicode \<Rightarrow> llm \<Rightarrow> json_codec \<Rightarrow> world \<Rightarrow> clock \<Rightarrow> ustr \<Rightarrow>
   chat_message list option \<Rightarrow> int \<Rightarrow> bool \<Rightarrow> (error + ustr option) option \<Rightarrow>
   (error + ustr \<times> source_entry list) \<times> world" where
  "rag_query_try B U L J W clk query chat_history top_k use_cache db =
     (case generate_embedding B query of
        Inl e \<Rightarrow> (Inl e, W)
      | Inr query_embedding \<Rightarrow>
          (case (if use_cache
                 then semantic_cache_get J semantic_cache (cache W) (t_cache_get clk)
                        query_embedding
                 else None) of
             Some (response_text, sources) \<Rightarrow> (Inr (response_text, sources), W)
           | None \<Rightarrow>
               (case hybrid_search B U (svc W) (t_search clk) query 10 None (1 / 2)
                       (Some query_embedding) of
                  (search_results, svc') \<Rightarrow>
               (let W = W\<lparr>svc := svc'\<rparr>;
                    top_results = rerank_results query search_results top_k
                in case build_context top_results of
                  (context, sources) \<Rightarrow>
               (case (case db of
                        None \<Rightarrow> (None, prompts W)
                      | Some db_result \<Rightarrow> load_sys_prompt db_result (prompts W) (t_prompt clk)) of
                  (custom_sys_prompt, pc) \<Rightarrow>
               (let W = W\<lparr>prompts := pc\<rparr> in
                case (if context \<noteq> []
                      then (case generate_response U L (gen W) query context chat_history
                                   custom_sys_prompt of
                              (response, g) \<Rightarrow> (response, sources, W\<lparr>gen := g\<rparr>))
                      else (no_context_message, [], W)) of
                  (response, sources, W) \<Rightarrow>
               (let W = (if use_cache \<and> context \<noteq> []
                         then W\<lparr>cache := snd (semantic_cache_set J semantic_cache (cache W)
                                                 (t_cache_set clk) query_embedding response
                                                 sources)\<rparr>
                         else W)
                in (Inr (response, sources), W))))))))"

text \<open>\<^verbatim>\<open>rag_query\<close>: the outer handler turns any exception into the fixed error reply.\<close>

definition rag_query ::
  "backend \<Rightarrow> unicode \<Rightarrow> llm \<Rightarrow> json_codec \<Rightarrow> world \<Rightarrow> clock \<Rightarrow> ustr \<Rightarrow>
   chat_message list option \<Rightarrow> int \<Rightarrow> bool \<Rightarrow> (error + ustr option) option \<Rightarrow>
   (ustr \<times> source_entry list) \<times> world" where
  "rag_query B U L J W clk query chat_history top_k use_cache db =
     (case rag_query_try B U L J W clk query chat_history top_k use_cache db of
        (Inl e, W) \<Rightarrow> ((pipeline_error_message, []), W)
      | (Inr result, W) \<Rightarrow> (result, W))"

section \<open>The ranking the specification describes\<close>

text \<open>
  The fused ranking in the words of the specification, to be compared with
  \<open>hybrid_search\<close>.  \<open>scores\<close> are the lexical scores of the corpus chunks, \<open>result_docs\<close>
  and \<open>result_distances\<close> the texts and distances of the vector result set.

  Lexical similarity with the guard of the code: the score divided by the maximum score,
  the maximum being taken as 1 when it is not positive.
\<close>

definition lexical_similarity :: "real list \<Rightarrow> nat \<Rightarrow> real" where
  "lexical_similarity scores i =
     scores ! i / (if Max (set scores) > 0 then Max (set scores) else 1)"

text \<open>
  Lexical similarity in the words of the specification: the score divided by the maximum
  score, the maximum being taken as 1 when it is 0.
\<close>

definition claimed_lexical_similarity :: "real list \<Rightarrow> nat \<Rightarrow> real" where
  "claimed_lexical_similarity scores i =
     scores ! i / (if Max (set scores) = 0 then 1 else Max (set scores))"

text \<open>
  Vector similarity of a chunk text: \<open>1 - d / 2\<close> where \<open>d\<close> is the distance of the text
  in the vector result set (of its last occurrence there), and 0 for a text that is not in
  the result set.
\<close>

definition vector_similarity :: "ustr list \<Rightarrow> real list \<Rightarrow> ustr \<Rightarrow> real" where
  "vector_similarity result_docs result_distances doc =
     (case map_of (rev (zip result_docs result_distances)) doc of
        None \<Rightarrow> 0
      | Some d \<Rightarrow> 1 - d / 2)"

text \<open>The fused score of the chunk with index \<open>i\<close>.\<close>

definition fused_score ::
  "real \<Rightarrow> ustr list \<Rightarrow> real list \<Rightarrow> ustr list \<Rightarrow> real list \<Rightarrow> nat \<Rightarrow> real" where
  "fused_score alpha docs scores result_docs result_distances i =
     alpha * vector_similarity result_docs result_distances (docs ! i) +
     (1 - alpha) * lexical_similarity scores i"

text \<open>
  The search result of the chunk with index \<open>i\<close>, carrying its fused score; \<open>metas\<close> are
  the metadata dicts of the chunks.
\<close>

definition fused_result ::
  "real \<Rightarrow> ustr list \<Rightarrow> metadata list \<Rightarrow> real list \<Rightarrow> ustr list \<Rightarrow> real list \<Rightarrow> nat \<Rightarrow>
   SearchResult" where
  "fused_result alpha docs metas scores result_docs result_distances i =
     (let fused = fused_score alpha docs scores result_docs result_distances i;
          md = (if metas = [] then \<lparr>md_source = None, md_page = None\<rparr> else metas ! i)
      in \<lparr>content = docs ! i,
          source = (case md_source md of None \<Rightarrow> u ''Unknown'' | Some s \<Rightarrow> s),
          page = (case md_page md of None \<Rightarrow> 0 | Some p \<Rightarrow> p),
          distance = 1 - fused,
          score = Some fused\<rparr>)"

text \<open>
  The rank order of the chunks, as a list of their indices, for the fused scores \<open>fs\<close>:
  \<open>insert_ranked\<close> puts the chunk \<open>i\<close> before the first chunk of a ranked list that has a
  lower fused score, or the same fused score and a later place in the corpus.
\<close>

fun insert_ranked :: "(nat \<Rightarrow> real) \<Rightarrow> nat \<Rightarrow> nat list \<Rightarrow> nat list" where
  "insert_ranked fs i [] = [i]"
| "insert_ranked fs i (j # js) =
     (if fs j < fs i \<or> (fs j = fs i \<and> i < j) then i # j # js
      else j # insert_ranked fs i js)"

definition fused_order :: "(nat \<Rightarrow> real) \<Rightarrow> nat \<Rightarrow> nat list" where
  "fused_order fs n = foldr (insert_ranked fs) [0..<n] []"

text \<open>All chunks of the corpus in rank order, cut to the first \<open>top_k\<close>.\<close>

definition fused_ranking ::
  "real \<Rightarrow> int \<Rightarrow> ustr list \<Rightarrow> metadata list \<Rightarrow> real list \<Rightarrow> ustr list \<Rightarrow> real list \<Rightarrow>
   SearchResult list" where
  "fused_ranking alpha top_k docs metas scores result_docs result_distances =
     py_take top_k
       (map (fused_result alpha docs metas scores result_docs result_distances)
          (fused_order (fused_score alpha docs scores result_docs result_distances)
             (length docs)))"

text \<open>The result appended by one round of \<open>combine_loop\<close> (used in the proofs).\<close>

definition mk_result ::
  "real \<Rightarrow> (ustr \<rightharpoonup> real) \<Rightarrow> real list \<Rightarrow> metadata list \<Rightarrow> nat \<Rightarrow> ustr \<Rightarrow> SearchResult" where
  "mk_result alpha vmap ns metas i doc =
     (let metadata = (if metas \<noteq> [] then metas ! i else \<lparr>md_source = None, md_page = None\<rparr>);
          hybrid_score = alpha * (case vmap doc of None \<Rightarrow> 0 | Some v \<Rightarrow> v) + (1 - alpha) * ns ! i
      in \<lparr>content = doc,
          source = (case md_source metadata of None \<Rightarrow> u ''Unknown'' | Some s \<Rightarrow> s),
          page = (case md_page metadata of None \<Rightarrow> 0 | Some p \<Rightarrow> p),
          distance = 1 - hybrid_score,
          score = Some hybrid_score\<rparr>)"

section \<open>Example environments\<close>

text \<open>
  Small concrete stores and services, used to run the definitions.  The collection holds
  one chunk, which \<^verbatim>\<open>get\<close> returns when no filter is given (a filter matches nothing);
  the stand-in lexical scorer counts the tokens of a document that occur in the query.
\<close>

definition example_metadata :: metadata where
  "example_metadata = \<lparr>md_source = Some (u ''doc1''), md_page = Some 3\<rparr>"

definition example_collection :: collection where
  "example_collection =
     \<lparr>coll_get = (\<lambda>f. if f = None then Inr ([u ''Box breathing''], [Some example_metadata])
                       else Inr ([], [])),
      coll_query = (\<lambda>e n f. Inr \<lparr>qr_documents = [[u ''Box breathing'']],
                                  qr_distances = [[1 / 2]]\<rparr>)\<rparr>"

definition empty_collection :: collection where
  "empty_collection =
     \<lparr>coll_get = (\<lambda>f. Inr ([], [])),
      coll_query = (\<lambda>e n f. Inr \<lparr>qr_documents = [[]], qr_distances = [[]]\<rparr>)\<rparr>"

definition overlap_scores :: "bm25 \<Rightarrow> ustr list \<Rightarrow> real list" where
  "overlap_scores index q =
     (case index of BM25Okapi corpus \<Rightarrow>
        map (\<lambda>d. real (length (filter (\<lambda>w. w \<in> set q) d))) corpus)"

definition example_backend :: "collection \<Rightarrow> backend" where
  "example_backend c =
     \<lparr>chroma_collection = Inr c,
      bm25_new = (\<lambda>corpus. Inr (BM25Okapi corpus)),
      bm25_get_scores = (\<lambda>index q. Inr (overlap_scores index q)),
      embed_content = (\<lambda>t. Inr [1])\<rparr>"

text \<open>A collection that holds one chunk and whose vector query raises.\<close>

definition failing_query_collection :: collection where
  "failing_query_collection =
     \<lparr>coll_get = (\<lambda>f. Inr ([u ''Box breathing''], [Some example_metadata])),
      coll_query = (\<lambda>e n f. Inl OtherException)\<rparr>"

text \<open>
  A collection of three chunks whose vector query returns two of them, and a backend
  whose lexical scores are negative (as \<^verbatim>\<open>rank_bm25\<close> gives on a corpus of one document,
  where every inverse document frequency is negative).
\<close>

definition three_chunk_collection :: collection where
  "three_chunk_collection =
     \<lparr>coll_get = (\<lambda>f. Inr ([u ''Box breathing reduces anxiety'', u ''Sleep hygiene'',
                             u ''Anxiety and sleep''],
                            [Some \<lparr>md_source = Some (u ''doc1''), md_page = Some 3\<rparr>,
                             Some \<lparr>md_source = Some (u ''doc2''), md_page = Some 7\<rparr>,
                             Some \<lparr>md_source = None, md_page = None\<rparr>])),
      coll_query = (\<lambda>e n f. Inr \<lparr>qr_documents = [[u ''Sleep hygiene'',
                                                      u ''Box breathing reduces anxiety'']],
                                  qr_distances = [[1 / 2, 1]]\<rparr>)\<rparr>"

definition negative_score_backend :: "collection \<Rightarrow> backend" where
  "negative_score_backend c =
     \<lparr>chroma_collection = Inr c,
      bm25_new = (\<lambda>corpus. Inr (BM25Okapi corpus)),
      bm25_get_scores = (\<lambda>index q. Inr (case index of BM25Okapi corpus \<Rightarrow>
                                            map (\<lambda>d. - 1 / 4) corpus)),
      embed_content = (\<lambda>t. Inr [1])\<rparr>"

text \<open>
  A collection whose second chunk was stored without metadata: its entry in
  \<^verbatim>\<open>metadatas\<close> is \<^verbatim>\<open>None\<close>.
\<close>

definition missing_metadata_collection :: collection where
  "missing_metadata_collection =
     \<lparr>coll_get = (\<lambda>f. Inr ([u ''Box breathing'', u ''Sleep hygiene''],
                            [Some example_metadata, None])),
      coll_query = (\<lambda>e n f. Inr \<lparr>qr_documents = [[u ''Box breathing'']],
                                  qr_distances = [[1 / 2]]\<rparr>)\<rparr>"

text \<open>
  A codec that stores the payload as the text of the response (enough to run the cache
  when the sources list is empty), a Redis server that is up and empty, a backend that
  never answers, and the initial state of the pipeline.
\<close>

definition example_codec :: json_codec where
  "example_codec =
     \<lparr>embedding_hexdigest = (\<lambda>e. u ''0123456789abcdef0123''),
      dumps_cache_data = (\<lambda>(r, s). 123 # r),
      loads_cache_data = (\<lambda>d. case d of [] \<Rightarrow> Inl OtherException | _ # r \<Rightarrow> Inr (r, []))\<rparr>"

definition empty_redis :: redis_world where
  "empty_redis = \<lparr>redis_client = Some Map.empty, redis_up = True, set_calls = 0\<rparr>"

definition silent_llm :: llm where
  "silent_llm =
     \<lparr>generate_content = (\<lambda>m p. Inl OtherException),
      generate_content_stream = (\<lambda>m p. Inl OtherException)\<rparr>"

definition init_world :: world where
  "init_world =
     \<lparr>svc = init_rag_service,
      gen = \<lparr>last_working_model = None, attempts = []\<rparr>,
      prompts = \<lparr>sys_prompt_cache = None, sys_prompt_cache_time = None\<rparr>,
      cache = empty_redis\<rparr>"

section \<open>Properties of the context assembler\<close>

lemma build_context_loop_eq:
  "build_context_loop i rs cp ss =
     (cp @ map (\<lambda>k. context_part (i + int k) (rs ! k)) [0..<length rs], ss @ map source_of rs)"
proof (induction rs arbitrary: i cp ss)
  case Nil
  then show ?case by simp
next
  case (Cons r rs)
  have "map (\<lambda>k. context_part (i + int k) ((r # rs) ! k)) [0..<length (r # rs)] =
        context_part i r # map (\<lambda>k. context_part (i + 1 + int k) (rs ! k)) [0..<length rs]"
    by (simp add: upt_conv_Cons map_Suc_upt [symmetric] del: upt_Suc add: add.assoc)
  then show ?case
    using Cons.IH [of "i + 1"] by simp
qed

text \<open>
  Claim C8 (as amended).  For every list of ranked results, \<open>build_context\<close> emits for the
  \<open>k\<close>-th result (counted from 1) the block made of the index in square brackets, a
  space, the chunk text, a line feed and the parenthesised provenance line whose labels
  are the Vietnamese words of the source code (N, g, u, U+1ED3, n for the source and
  \<open>trang\<close> for the page); the blocks are joined with a blank line; the parallel sources
  list carries the source as title, the page, and the chunk text unchanged when it has at
  most 200 characters and otherwise its first 200 characters followed by three dots.  The
  empty list gives the empty string and the empty list.
\<close>

theorem build_context_blocks:
  "build_context rs =
    (py_join (u ''\<newline>\<newline>'')
       (map (\<lambda>k. u ''['' @ str_int (int k + 1) @ u ''] '' @ content (rs ! k) @ [10] @
                   u ''('' @ [78, 103, 117, 7891, 110] @ u '': '' @ source (rs ! k) @
                   u '', trang '' @ str_int (page (rs ! k)) @ u '')'')
            [0..<length rs]),
     map (\<lambda>r. \<lparr>title = source r, src_page = page r,
                 content_snippet = (if length (content r) \<le> 200 then content r
                                    else take 200 (content r) @ u ''...'')\<rparr>) rs)"
proof -
  have a: "(\<lambda>k. context_part (1 + int k) (rs ! k)) =
     (\<lambda>k. u ''['' @ str_int (int k + 1) @ u ''] '' @ content (rs ! k) @ [10] @
                   u ''('' @ [78, 103, 117, 7891, 110] @ u '': '' @ source (rs ! k) @
                   u '', trang '' @ str_int (page (rs ! k)) @ u '')'')"
    by (simp add: context_part_def add.commute)
  have b: "source_of = (\<lambda>r. \<lparr>title = source r, src_page = page r,
                 content_snippet = (if length (content r) \<le> 200 then content r
                                    else take 200 (content r) @ u ''...'')\<rparr>)"
    by (auto simp: source_of_def fun_eq_iff)
  show ?thesis
    unfolding build_context_def build_context_loop_eq a b
    by simp
qed

text \<open>
  The claim as first stated gives the provenance line the English labels \<open>Source\<close> and
  \<open>page\<close>.  For one result with text \<open>c\<close>, source \<open>s\<close> and page 3 the context is not the
  English block.
\<close>

theorem build_context_label_counterexample:
  "fst (build_context
          [\<lparr>content = u ''c'', source = u ''s'', page = 3, distance = 0, score = None\<rparr>])
     \<noteq> u ''[1] c'' @ [10] @ u ''(Source: s, page 3)''"
  by (simp add: build_context_def context_part_def str_int_def u_def)

section \<open>Properties of the safety gate\<close>

lemma first_char_drop:
  "first_char (drop n s) = (if n < length s then Some (s ! n) else None)"
proof (cases "n < length s")
  case True
  then have "drop n s = s ! n # drop (Suc n) s" by (simp add: Cons_nth_drop_Suc)
  with True show ?thesis by (simp add: first_char_def)
next
  case False
  then show ?thesis by (simp add: first_char_def)
qed

lemma pattern_matches_here_word:
  assumes "kw \<noteq> []" "is_word U (hd kw)" "is_word U (last kw)"
  shows "pattern_matches_here U kw b s \<longleftrightarrow>
    (\<not> is_word_opt U b \<and> take (length kw) s = kw \<and>
     \<not> is_word_opt U (first_char (drop (length kw) s)))"
proof (cases "take (length kw) s = kw")
  case False
  then show ?thesis by (simp add: pattern_matches_here_def)
next
  case True
  with assms(1) have "s \<noteq> []" by auto
  moreover from True assms(1) have "hd s = hd kw"
    by (metis hd_take length_greater_0_conv)
  ultimately have "first_char s = Some (hd kw)"
    by (cases s) (auto simp: first_char_def)
  with assms True show ?thesis
    by (auto simp: pattern_matches_here_def word_boundary_def is_word_opt_def)
qed

lemma re_search_iff:
  "re_search U kw b s \<longleftrightarrow>
     (\<exists>i \<le> length s. pattern_matches_here U kw (if i = 0 then b else Some (s ! (i - 1))) (drop i s))"
proof (induction s arbitrary: b)
  case Nil
  then show ?case by simp
next
  case (Cons c cs)
  have "(\<exists>i \<le> length (c # cs). pattern_matches_here U kw (if i = 0 then b else Some ((c # cs) ! (i - 1))) (drop i (c # cs)))
     \<longleftrightarrow> (pattern_matches_here U kw b (c # cs) \<or>
          (\<exists>j \<le> length cs. pattern_matches_here U kw (if j = 0 then Some c else Some (cs ! (j - 1))) (drop j cs)))"
    (is "?L \<longleftrightarrow> ?A \<or> ?B")
  proof
    assume ?L
    then obtain i where i: "i \<le> length (c # cs)"
      "pattern_matches_here U kw (if i = 0 then b else Some ((c # cs) ! (i - 1))) (drop i (c # cs))"
      by blast
    show "?A \<or> ?B"
    proof (cases i)
      case 0
      with i show ?thesis by simp
    next
      case (Suc j)
      with i have "j \<le> length cs"
        "pattern_matches_here U kw (if j = 0 then Some c else Some (cs ! (j - 1))) (drop j cs)"
        by (auto simp: nth_Cons split: nat.splits if_splits)
      then show ?thesis by blast
    qed
  next
    assume "?A \<or> ?B"
    then show ?L
    proof
      assume ?A
      then show ?L by (intro exI [of _ 0]) simp
    next
      assume ?B
      then obtain j where "j \<le> length cs"
        "pattern_matches_here U kw (if j = 0 then Some c else Some (cs ! (j - 1))) (drop j cs)"
        by blast
      then show ?L
        by (intro exI [of _ "Suc j"]) (auto simp: nth_Cons split: nat.splits)
    qed
  qed
  with Cons.IH [of "Some c"] show ?case by simp
qed

lemma whole_word_at_iff:
  assumes "k \<noteq> []" "is_word U (hd k)" "is_word U (last k)"
  shows "pattern_matches_here U k (if i = 0 then None else Some (t ! (i - 1))) (drop i t)
     \<longleftrightarrow> whole_word_at U k t i"
  unfolding pattern_matches_here_word [OF assms] whole_word_at_def
  by (auto simp: first_char_drop is_word_opt_def add.commute)

lemma re_search_whole_word:
  assumes "k \<noteq> []" "is_word U (hd k)" "is_word U (last k)"
  shows "re_search U k None t \<longleftrightarrow> (\<exists>i \<in> {0..length t}. whole_word_at U k t i)"
  unfolding re_search_iff
  by (simp add: whole_word_at_iff [OF assms] Bex_def)

lemma check_sos_loop_iff:
  assumes "\<forall>k \<in> set ks. lower U k \<noteq> [] \<and> is_word U (hd (lower U k)) \<and> is_word U (last (lower U k))"
  shows "check_sos_loop U t ks \<longleftrightarrow> (\<exists>k \<in> set ks. \<exists>i \<in> {0..length t}. whole_word_at U (lower U k) t i)"
  using assms
  by (induction ks) (simp_all add: re_search_whole_word)

text \<open>
  What the check does decide as a whole-word search.  For every keyword list whose
  keywords, once lower-cased, are non-empty and begin and end with a word character, and
  for every text, \<open>check_sos_keywords\<close> returns true if and only if the text contains
  some keyword of the list as a whole word, compared after lower-casing: an occurrence
  delimited by non-word characters or by the ends of the text matches, an occurrence
  whose neighbour is a word character does not.
\<close>

theorem check_sos_keywords_whole_word:
  assumes "\<forall>k \<in> set K. lower U k \<noteq> [] \<and> is_word U (hd (lower U k)) \<and> is_word U (last (lower U k))"
  shows "check_sos_keywords U T (Some K) \<longleftrightarrow> (\<exists>k \<in> set K. contains_whole_word U k T)"
  using check_sos_loop_iff [OF assms]
  by (simp add: check_sos_keywords_def contains_whole_word_def)

theorem check_sos_keywords_whole_word_witness:
  "check_sos_keywords ascii_unicode (u ''I want to Die.'') (Some [u ''hurt'', u ''die'']) \<and>
   (\<exists>k \<in> set [u ''hurt'', u ''die'']. contains_whole_word ascii_unicode k (u ''I want to Die.''))"
proof -
  have h: "\<forall>k \<in> set [u ''hurt'', u ''die''].
       lower ascii_unicode k \<noteq> [] \<and> is_word ascii_unicode (hd (lower ascii_unicode k)) \<and>
       is_word ascii_unicode (last (lower ascii_unicode k))"
    by (simp add: u_def ascii_unicode_def ascii_lower_def ascii_is_word_def)
  have c: "check_sos_keywords ascii_unicode (u ''I want to Die.'') (Some [u ''hurt'', u ''die''])"
    by (simp add: check_sos_keywords_def u_def ascii_unicode_def ascii_lower_def
        pattern_matches_here_def word_boundary_def is_word_opt_def first_char_def
        ascii_is_word_def)
  from c check_sos_keywords_whole_word [OF h, of "u ''I want to Die.''"]
  show ?thesis by blast
qed

text \<open>
  Claim C1, at a failing input.  The claim holds for every keyword list: the check
  returns true exactly when the text contains a keyword as a whole word, and the
  docstring of \<open>check_sos_keywords\<close> promises \<^verbatim>\<open>True if crisis keywords detected\<close>.  The
  keyword list is any list of strings (the configuration takes any comma separated
  text).  With the keyword \<open>sos!\<close>, which ends with a non-word character, the text
  \<open>SOS! please\<close> contains the keyword delimited by the start of the text and a space,
  and the text \<open>sos!\<close> is the keyword itself, yet the check returns false on both: the
  closing \<^verbatim>\<open>\b\<close> of the pattern asks for a word character next to the exclamation mark.
\<close>

theorem check_sos_keywords_punctuated_keyword_counterexample:
  "check_sos_keywords ascii_unicode (u ''SOS! please'') (Some [u ''sos!'']) = False \<and>
   contains_whole_word ascii_unicode (u ''sos!'') (u ''SOS! please'') = True \<and>
   check_sos_keywords ascii_unicode (u ''sos!'') (Some [u ''sos!'']) = False \<and>
   contains_whole_word ascii_unicode (u ''sos!'') (u ''sos!'') = True"
proof (intro conjI)
  show "check_sos_keywords ascii_unicode (u ''SOS! please'') (Some [u ''sos!'']) = False"
    by (simp add: check_sos_keywords_def u_def ascii_unicode_def ascii_lower_def
        pattern_matches_here_def word_boundary_def is_word_opt_def first_char_def
        ascii_is_word_def)
  show "contains_whole_word ascii_unicode (u ''sos!'') (u ''SOS! please'') = True"
    apply (simp add: contains_whole_word_def)
    apply (rule bexI [of _ 0])
     apply (simp add: whole_word_at_def u_def ascii_unicode_def ascii_lower_def
        ascii_is_word_def)
    apply simp
    done
  show "check_sos_keywords ascii_unicode (u ''sos!'') (Some [u ''sos!'']) = False"
    by (simp add: check_sos_keywords_def u_def ascii_unicode_def ascii_lower_def
        pattern_matches_here_def word_boundary_def is_word_opt_def first_char_def
        ascii_is_word_def)
  show "contains_whole_word ascii_unicode (u ''sos!'') (u ''sos!'') = True"
    apply (simp add: contains_whole_word_def)
    apply (rule bexI [of _ 0])
     apply (simp add: whole_word_at_def u_def ascii_unicode_def ascii_lower_def
        ascii_is_word_def)
    apply simp
    done
qed

section \<open>Properties of the response generator\<close>

lemma try_models_all_fail:
  "\<forall>m \<in> set ms. isl (generate_content L m p) \<Longrightarrow>
   try_models U L p ms st = (apology_message, st\<lparr>attempts := attempts st @ ms\<rparr>)"
proof (induction ms arbitrary: st)
  case Nil
  then show ?case by simp
next
  case (Cons m ms)
  from Cons.prems obtain e where e: "generate_content L m p = Inl e"
    by (cases "generate_content L m p") auto
  from Cons.prems have "\<forall>x \<in> set ms. isl (generate_content L x p)" by simp
  from Cons.IH [OF this] e show ?case by simp
qed

lemma try_models_first_success:
  assumes "\<forall>x \<in> set ms1. isl (generate_content L x p)"
    and "generate_content L m p = Inr t"
  shows "try_models U L p (ms1 @ m # ms2) st =
    (sanitize U t, st\<lparr>attempts := attempts st @ ms1 @ [m], last_working_model := Some m\<rparr>)"
  using assms(1)
proof (induction ms1 arbitrary: st)
  case Nil
  with assms(2) show ?case by simp
next
  case (Cons x xs)
  from Cons.prems obtain e where e: "generate_content L x p = Inl e"
    by (cases "generate_content L x p") auto
  from Cons.prems have "\<forall>y \<in> set xs. isl (generate_content L y p)" by simp
  from Cons.IH [OF this] e show ?case by simp
qed

lemma try_models_attempts_extend:
  "\<exists>r. attempts (snd (try_models U L p ms st)) = attempts st @ r"
proof (induction ms arbitrary: st)
  case Nil
  then show ?case by simp
next
  case (Cons m ms)
  show ?case
  proof (cases "generate_content L m p")
    case (Inr t)
    then show ?thesis by simp
  next
    case (Inl e)
    from Cons.IH [of "st\<lparr>attempts := attempts st @ [m]\<rparr>"]
    obtain r where "attempts (snd (try_models U L p ms (st\<lparr>attempts := attempts st @ [m]\<rparr>))) =
       attempts st @ [m] @ r" by auto
    with Inl show ?thesis by simp
  qed
qed

lemma try_models_attempts_first:
  "\<exists>r. attempts (snd (try_models U L p (m # ms) st)) = attempts st @ m # r"
proof (cases "generate_content L m p")
  case (Inr t)
  then show ?thesis by simp
next
  case (Inl e)
  from try_models_attempts_extend [of U L p ms "st\<lparr>attempts := attempts st @ [m]\<rparr>"]
  obtain r where "attempts (snd (try_models U L p ms (st\<lparr>attempts := attempts st @ [m]\<rparr>))) =
       attempts st @ [m] @ r" by auto
  with Inl show ?thesis by simp
qed

lemma prioritized_models_remembered:
  "m \<in> set candidate_models \<Longrightarrow> prioritized_models (Some m) = m # remove1 m candidate_models"
  by (auto simp: prioritized_models_def candidate_models_def)

lemma connect_stream_all_fail:
  "\<forall>m \<in> set ms. isl (generate_content_stream L m p) \<Longrightarrow> connect_stream L p ms = None"
proof (induction ms)
  case Nil
  then show ?case by simp
next
  case (Cons m ms)
  then obtain e where "generate_content_stream L m p = Inl e"
    by (cases "generate_content_stream L m p") auto
  with Cons show ?case by simp
qed

lemma prioritized_models_subset:
  "set (prioritized_models l) = set candidate_models"
  by (auto simp: prioritized_models_def candidate_models_def split: option.splits)

text \<open>
  Claim C5.  \<open>generate_response\<close> tries the candidate models in priority order, the
  remembered last working model first when there is one.  When the models before \<open>m\<close> in
  that order fail and \<open>m\<close> answers, the attempts logged are exactly those models and \<open>m\<close>,
  the sanitised answer of \<open>m\<close> is returned, \<open>m\<close> is remembered, and the next call, whatever
  its arguments and backend, tries \<open>m\<close> first.  When every candidate fails the fixed
  apology string is returned (nothing is raised) and the remembered model is unchanged.
  The streaming variant yields the apology as its single fragment when no model connects.
\<close>

theorem generate_response_model_fallback:
  fixes U L st query ctx h sp
  defines "p \<equiv> build_prompt sp ctx h query"
  shows
  "(\<forall>m. last_working_model st = Some m \<and> m \<in> set candidate_models \<longrightarrow>
        prioritized_models (last_working_model st) = m # remove1 m candidate_models) \<and>
   (last_working_model st = None \<longrightarrow> prioritized_models (last_working_model st) = candidate_models) \<and>
   (\<forall>ms1 m ms2 t.
       prioritized_models (last_working_model st) = ms1 @ m # ms2 \<and>
       (\<forall>x \<in> set ms1. isl (generate_content L x p)) \<and>
       generate_content L m p = Inr t \<longrightarrow>
       generate_response U L st query ctx h sp =
         (sanitize U t, st\<lparr>attempts := attempts st @ ms1 @ [m], last_working_model := Some m\<rparr>) \<and>
       (\<forall>L' query' ctx' h' sp'. \<exists>r.
          attempts (snd (generate_response U L' (snd (generate_response U L st query ctx h sp))
                           query' ctx' h' sp')) =
          attempts (snd (generate_response U L st query ctx h sp)) @ m # r)) \<and>
   ((\<forall>x \<in> set (prioritized_models (last_working_model st)). isl (generate_content L x p)) \<longrightarrow>
       generate_response U L st query ctx h sp =
         (apology_message,
          st\<lparr>attempts := attempts st @ prioritized_models (last_working_model st)\<rparr>)) \<and>
   ((\<forall>x \<in> set stream_candidate_models. isl (generate_content_stream L x p)) \<longrightarrow>
       generate_response_stream L query ctx h sp = [apology_message])"
proof (intro conjI allI impI)
  fix m
  assume "last_working_model st = Some m \<and> m \<in> set candidate_models"
  then show "prioritized_models (last_working_model st) = m # remove1 m candidate_models"
    by (simp add: prioritized_models_remembered)
next
  assume "last_working_model st = None"
  then show "prioritized_models (last_working_model st) = candidate_models"
    by (simp add: prioritized_models_def)
next
  fix ms1 m ms2 t
  assume a: "prioritized_models (last_working_model st) = ms1 @ m # ms2 \<and>
       (\<forall>x \<in> set ms1. isl (generate_content L x p)) \<and> generate_content L m p = Inr t"
  then show r: "generate_response U L st query ctx h sp =
         (sanitize U t, st\<lparr>attempts := attempts st @ ms1 @ [m], last_working_model := Some m\<rparr>)"
    unfolding generate_response_def p_def [symmetric]
    by (simp add: try_models_first_success)
  from a have "m \<in> set (prioritized_models (last_working_model st))" by simp
  then have m: "m \<in> set candidate_models" by (simp add: prioritized_models_subset)
  fix L' query' ctx' h' sp'
  show "\<exists>r. attempts (snd (generate_response U L' (snd (generate_response U L st query ctx h sp))
                           query' ctx' h' sp')) =
          attempts (snd (generate_response U L st query ctx h sp)) @ m # r"
  proof -
    let ?st' = "st\<lparr>attempts := attempts st @ ms1 @ [m], last_working_model := Some m\<rparr>"
    from try_models_attempts_first
      [of U L' "build_prompt sp' ctx' h' query'" m "remove1 m candidate_models" ?st']
    obtain r' where "attempts (snd (try_models U L' (build_prompt sp' ctx' h' query')
        (m # remove1 m candidate_models) ?st')) = attempts ?st' @ m # r'" by blast
    then show ?thesis
      unfolding r
      by (simp add: generate_response_def [of U L'] prioritized_models_remembered [OF m]
          del: try_models.simps)
  qed
next
  assume "\<forall>x \<in> set (prioritized_models (last_working_model st)). isl (generate_content L x p)"
  then show "generate_response U L st query ctx h sp =
         (apology_message,
          st\<lparr>attempts := attempts st @ prioritized_models (last_working_model st)\<rparr>)"
    unfolding generate_response_def p_def [symmetric]
    by (rule try_models_all_fail)
next
  assume "\<forall>x \<in> set stream_candidate_models. isl (generate_content_stream L x p)"
  then show "generate_response_stream L query ctx h sp = [apology_message]"
    unfolding generate_response_stream_def p_def [symmetric]
    by (simp add: connect_stream_all_fail)
qed

text \<open>
  Scenario E of the specification: the first candidate fails, the second answers.
\<close>

theorem generate_response_model_fallback_witness:
  "generate_response ascii_unicode
     \<lparr>generate_content =
        (\<lambda>m p. if m = ''gemini-flash-latest'' then Inr (u ''<p>ok</p>'') else Inl OtherException),
      generate_content_stream = (\<lambda>m p. Inl OtherException)\<rparr>
     \<lparr>last_working_model = None, attempts = []\<rparr> (u ''q'') (u ''c'') None None =
     (u ''ok'',
      \<lparr>last_working_model = Some ''gemini-flash-latest'',
       attempts = [''gemini-2.0-flash-exp'', ''gemini-flash-latest'']\<rparr>) \<and>
   generate_response_stream
     \<lparr>generate_content =
        (\<lambda>m p. if m = ''gemini-flash-latest'' then Inr (u ''<p>ok</p>'') else Inl OtherException),
      generate_content_stream = (\<lambda>m p. Inl OtherException)\<rparr>
     (u ''q'') (u ''c'') None None = [apology_message]"
proof -
  let ?L = "\<lparr>generate_content =
        (\<lambda>m p. if m = ''gemini-flash-latest'' then Inr (u ''<p>ok</p>'') else Inl OtherException),
      generate_content_stream = (\<lambda>m p. Inl OtherException)\<rparr>"
  let ?st = "\<lparr>last_working_model = None, attempts = []\<rparr>"
  note T = generate_response_model_fallback [of ?st ?L None "u ''c''" None "u ''q''" ascii_unicode]
  have s: "sanitize ascii_unicode (u ''<p>ok</p>'') = u ''ok''"
    by (simp add: sanitize_def u_def tag_pattern_def malformed_tag_pattern_def py_strip_def
      ascii_unicode_def ascii_letter_def ascii_alnum_def ascii_is_word_def ascii_is_space_def
      upt_rec)
  have 1: "generate_response ascii_unicode ?L ?st (u ''q'') (u ''c'') None None =
     (u ''ok'',
      \<lparr>last_working_model = Some ''gemini-flash-latest'',
       attempts = [''gemini-2.0-flash-exp'', ''gemini-flash-latest'']\<rparr>)"
    using T [THEN conjunct2, THEN conjunct2, THEN conjunct1, rule_format,
        of "[''gemini-2.0-flash-exp'']" "''gemini-flash-latest''"
           "[''gemini-1.5-flash'', ''gemini-pro'']" "u ''<p>ok</p>''", THEN conjunct1]
    by (simp add: prioritized_models_def candidate_models_def s)
  have 2: "generate_response_stream ?L (u ''q'') (u ''c'') None None = [apology_message]"
    using T [THEN conjunct2, THEN conjunct2, THEN conjunct2, THEN conjunct2]
    by (simp add: stream_candidate_models_def)
  from 1 2 show ?thesis by simp
qed

text \<open>
  Claim C9 at a failing input.  A backend whose answer is \<^verbatim>\<open><b>hi</b>\<close>: the streaming
  variant yields the chunk with its tags, while \<open>generate_response\<close> returns \<open>hi\<close> for
  the same text.  Also, for the answer \<^verbatim>\<open><<<b>b>b>\<close> the two substitutions of
  \<open>generate_response\<close> leave the tag \<^verbatim>\<open><b>\<close> in the returned text.
\<close>

theorem stream_fragments_not_sanitized:
  "generate_response_stream
     \<lparr>generate_content = (\<lambda>m p. Inr (u ''<b>hi</b>'')),
      generate_content_stream = (\<lambda>m p. Inr [Inr (u ''<b>hi</b>'')])\<rparr>
     query ctx h sp = [u ''<b>hi</b>''] \<and>
   fst (generate_response ascii_unicode
     \<lparr>generate_content = (\<lambda>m p. Inr (u ''<b>hi</b>'')),
      generate_content_stream = (\<lambda>m p. Inr [Inr (u ''<b>hi</b>'')])\<rparr>
     st query ctx h sp) = u ''hi'' \<and>
   fst (generate_response ascii_unicode
     \<lparr>generate_content = (\<lambda>m p. Inr (u ''<<<b>b>b>'')),
      generate_content_stream = (\<lambda>m p. Inr [])\<rparr>
     st query ctx h sp) = u ''<b>''"
proof -
  have s1: "sanitize ascii_unicode (u ''<b>hi</b>'') = u ''hi''"
    by (simp add: sanitize_def u_def tag_pattern_def malformed_tag_pattern_def py_strip_def
      ascii_unicode_def ascii_letter_def ascii_alnum_def ascii_is_word_def ascii_is_space_def
      upt_rec)
  have s2: "sanitize ascii_unicode (u ''<<<b>b>b>'') = u ''<b>''"
    by (simp add: sanitize_def u_def tag_pattern_def malformed_tag_pattern_def py_strip_def
      ascii_unicode_def ascii_letter_def ascii_alnum_def ascii_is_word_def ascii_is_space_def
      upt_rec)
  have ne: "prioritized_models (last_working_model st) \<noteq> []"
    by (auto simp: prioritized_models_def candidate_models_def split: option.splits)
  have a: "generate_response_stream
     \<lparr>generate_content = (\<lambda>m p. Inr (u ''<b>hi</b>'')),
      generate_content_stream = (\<lambda>m p. Inr [Inr (u ''<b>hi</b>'')])\<rparr>
     query ctx h sp = [u ''<b>hi</b>'']"
    by (simp add: generate_response_stream_def stream_candidate_models_def u_def)
  from ne obtain m ms where ms: "prioritized_models (last_working_model st) = m # ms"
    by (cases "prioritized_models (last_working_model st)") auto
  show ?thesis
    using a by (simp add: generate_response_def ms s1 s2)
qed

section \<open>Properties of the lexical index cache\<close>

lemmas ex_defs = example_backend_def example_collection_def empty_collection_def
  example_metadata_def init_rag_service_def get_bm25_index_def cache_valid_def
  invalidate_bm25_cache_def or_empty_def py_split_def ascii_unicode_def ascii_lower_def
  ascii_is_space_def u_def Let_def

lemma get_bm25_index_hit:
  "cache_valid st now \<Longrightarrow>
   get_bm25_index B U st now coll f =
     (Inr (bm25_cache st, or_empty (corpus_cache st), or_empty (corpus_metadatas st)), st)"
  by (simp add: get_bm25_index_def)

lemma get_bm25_index_returns_cache:
  assumes "get_bm25_index B U st t1 coll f = (Inr (Some idx, docs, metas), st1)"
  shows "bm25_cache st1 = Some idx \<and> or_empty (corpus_cache st1) = docs \<and>
         or_empty (corpus_metadatas st1) = metas"
proof (cases "cache_valid st t1")
  case True
  with assms show ?thesis by (auto simp: get_bm25_index_def)
next
  case False
  with assms show ?thesis
    by (auto simp: get_bm25_index_def Let_def or_empty_def
        split: sum.splits prod.splits if_splits)
qed

lemma cache_valid_iff:
  "cache_valid st now \<longleftrightarrow>
   (\<exists>idx t. bm25_cache st = Some idx \<and> bm25_cache_time st = Some t \<and> now - t < bm25_cache_ttl st)"
  by (auto simp: cache_valid_def split: option.splits)

text \<open>
  Claim C7 (as amended).  When a call of \<open>get_bm25_index\<close> returns an index (the corpus it
  found or had cached is not empty), a second call within the TTL of the cached index
  returns the identical index, documents and metadatas and leaves the state, fetch counter
  included, unchanged: the Document Store is not asked again, whatever collection and
  filter the second call is given.  After \<open>invalidate_bm25_cache\<close> the next call, at any
  time, fetches from the store, and when the store returns a non-empty corpus it builds
  the index from it and caches it with the time of the call.  A call without a valid
  cache that finds the corpus empty returns no index and changes nothing in the state but
  the fetch counter: an empty corpus is never cached.
\<close>

theorem bm25_index_cached_within_ttl:
  "(get_bm25_index B U st t1 coll f1 = (Inr (Some idx, docs, metas), st1) \<and>
    bm25_cache_time st1 = Some t0 \<and> t2 - t0 < bm25_cache_ttl st1 \<longrightarrow>
      get_bm25_index B' U' st1 t2 coll' f2 = (Inr (Some idx, docs, metas), st1)) \<and>
   store_fetches (snd (get_bm25_index B U (invalidate_bm25_cache st) t coll f)) =
     store_fetches st + 1 \<and>
   (coll_get coll f = Inr (docs, metas) \<and> docs \<noteq> [] \<and>
    bm25_new B (map (\<lambda>doc. py_split U (lower U doc)) docs) = Inr idx \<longrightarrow>
      fst (get_bm25_index B U (invalidate_bm25_cache st) t coll f) =
        Inr (Some idx, docs, metas) \<and>
      bm25_cache (snd (get_bm25_index B U (invalidate_bm25_cache st) t coll f)) = Some idx \<and>
      corpus_cache (snd (get_bm25_index B U (invalidate_bm25_cache st) t coll f)) = Some docs \<and>
      corpus_metadatas (snd (get_bm25_index B U (invalidate_bm25_cache st) t coll f)) = Some metas \<and>
      bm25_cache_time (snd (get_bm25_index B U (invalidate_bm25_cache st) t coll f)) = Some t) \<and>
   (\<not> cache_valid st t \<and> coll_get coll f = Inr ([], metas) \<longrightarrow>
      get_bm25_index B U st t coll f =
        (Inr (None, [], []), st\<lparr>store_fetches := store_fetches st + 1\<rparr>))"
proof (intro conjI impI)
  assume a: "get_bm25_index B U st t1 coll f1 = (Inr (Some idx, docs, metas), st1) \<and>
    bm25_cache_time st1 = Some t0 \<and> t2 - t0 < bm25_cache_ttl st1"
  then have c: "bm25_cache st1 = Some idx \<and> or_empty (corpus_cache st1) = docs \<and>
         or_empty (corpus_metadatas st1) = metas"
    using get_bm25_index_returns_cache by blast
  with a have "cache_valid st1 t2" by (auto simp: cache_valid_iff)
  then show "get_bm25_index B' U' st1 t2 coll' f2 = (Inr (Some idx, docs, metas), st1)"
    using c by (simp add: get_bm25_index_hit)
next
  have nv: "\<not> cache_valid (invalidate_bm25_cache st) t"
    by (simp add: cache_valid_def invalidate_bm25_cache_def)
  show "store_fetches (snd (get_bm25_index B U (invalidate_bm25_cache st) t coll f)) =
     store_fetches st + 1"
    using nv
    by (auto simp: get_bm25_index_def Let_def invalidate_bm25_cache_def
        split: sum.splits prod.splits)
  assume b: "coll_get coll f = Inr (docs, metas) \<and> docs \<noteq> [] \<and>
    bm25_new B (map (\<lambda>doc. py_split U (lower U doc)) docs) = Inr idx"
  with nv show "fst (get_bm25_index B U (invalidate_bm25_cache st) t coll f) =
        Inr (Some idx, docs, metas)"
    by (simp add: get_bm25_index_def Let_def)
  from b nv show "bm25_cache (snd (get_bm25_index B U (invalidate_bm25_cache st) t coll f)) = Some idx"
    by (simp add: get_bm25_index_def Let_def)
  from b nv show "corpus_cache (snd (get_bm25_index B U (invalidate_bm25_cache st) t coll f)) = Some docs"
    by (simp add: get_bm25_index_def Let_def)
  from b nv show "corpus_metadatas (snd (get_bm25_index B U (invalidate_bm25_cache st) t coll f)) = Some metas"
    by (simp add: get_bm25_index_def Let_def)
  from b nv show "bm25_cache_time (snd (get_bm25_index B U (invalidate_bm25_cache st) t coll f)) = Some t"
    by (simp add: get_bm25_index_def Let_def)
next
  assume "\<not> cache_valid st t \<and> coll_get coll f = Inr ([], metas)"
  then show "get_bm25_index B U st t coll f =
        (Inr (None, [], []), st\<lparr>store_fetches := store_fetches st + 1\<rparr>)"
    by (simp add: get_bm25_index_def Let_def)
qed


text \<open>A build at time 0, then a call at time 100: the cached triple, one fetch in all.\<close>

theorem bm25_index_cached_within_ttl_witness:
  "get_bm25_index (example_backend example_collection) ascii_unicode
     (snd (get_bm25_index (example_backend example_collection) ascii_unicode init_rag_service 0
             example_collection None))
     100 example_collection (Some [(u ''category'', u ''x'')]) =
   (Inr (Some (BM25Okapi [[u ''box'', u ''breathing'']]), [u ''Box breathing''],
         [Some example_metadata]),
    \<lparr>bm25_cache = Some (BM25Okapi [[u ''box'', u ''breathing'']]),
     bm25_cache_time = Some 0, bm25_cache_ttl = 300,
     corpus_cache = Some [u ''Box breathing''],
     corpus_metadatas = Some [Some example_metadata], store_fetches = 1\<rparr>)"
proof -
  let ?B = "example_backend example_collection"
  let ?st1 = "\<lparr>bm25_cache = Some (BM25Okapi [[u ''box'', u ''breathing'']]),
     bm25_cache_time = Some 0, bm25_cache_ttl = 300,
     corpus_cache = Some [u ''Box breathing''],
     corpus_metadatas = Some [Some example_metadata], store_fetches = 1\<rparr>"
  have 1: "get_bm25_index ?B ascii_unicode init_rag_service 0 example_collection None =
    (Inr (Some (BM25Okapi [[u ''box'', u ''breathing'']]), [u ''Box breathing''],
         [Some example_metadata]), ?st1)"
    by (simp add: ex_defs)
  have 2: "bm25_cache_time ?st1 = Some 0 \<and> (100::real) - 0 < bm25_cache_ttl ?st1" by simp
  from bm25_index_cached_within_ttl [THEN conjunct1, rule_format, OF conjI [OF 1 2]]
  show ?thesis unfolding 1 by simp
qed

text \<open>
  The claim as first stated holds for every two calls within the TTL.  On an empty
  corpus nothing is cached (\<^verbatim>\<open>return None, [], []\<close> comes before the cache is written), so
  a second call one second later fetches from the store again.
\<close>

theorem bm25_index_empty_corpus_counterexample:
  "fst (get_bm25_index (example_backend empty_collection) ascii_unicode init_rag_service 0
          empty_collection None) = Inr (None, [], []) \<and>
   store_fetches (snd (get_bm25_index (example_backend empty_collection) ascii_unicode
      init_rag_service 0 empty_collection None)) = 1 \<and>
   store_fetches (snd (get_bm25_index (example_backend empty_collection) ascii_unicode
      (snd (get_bm25_index (example_backend empty_collection) ascii_unicode init_rag_service 0
              empty_collection None))
      1 empty_collection None)) = 2"
  by (simp add: ex_defs)

lemma get_bm25_index_miss:
  "\<not> cache_valid st now \<Longrightarrow>
   fst (get_bm25_index B U st now coll f) =
     (case coll_get coll f of
        Inl e \<Rightarrow> Inl e
      | Inr (documents, metadatas) \<Rightarrow>
          if documents = [] then Inr (None, [], [])
          else (case bm25_new B (map (\<lambda>doc. py_split U (lower U doc)) documents) of
                  Inl e \<Rightarrow> Inl e
                | Inr idx \<Rightarrow> Inr (Some idx, documents, metadatas)))"
  by (simp add: get_bm25_index_def Let_def split: sum.splits prod.splits)

text \<open>
  Claim C10 (as amended).  The validity test does not consult \<open>filter_metadata\<close>: with a
  valid cache the result of \<open>get_bm25_index\<close> is the cached triple, in which the filter
  does not occur; when a call returned an index, a later call within the TTL returns that
  same index, documents and metadatas for every filter; \<open>hybrid_search\<close> then fuses over
  the cached corpus and passes its filter to the vector query only.  With no valid cache
  (never filled, expired or invalidated) the call fetches with its own filter.
\<close>

theorem bm25_cache_ignores_filter:
  "(cache_valid st now \<longrightarrow>
      get_bm25_index B U st now coll f =
        (Inr (bm25_cache st, or_empty (corpus_cache st), or_empty (corpus_metadatas st)), st)) \<and>
   (get_bm25_index B U st t1 coll f1 = (Inr (Some idx, docs, metas), st1) \<and>
    bm25_cache_time st1 = Some t0 \<and> t2 - t0 < bm25_cache_ttl st1 \<longrightarrow>
      fst (get_bm25_index B U st1 t2 coll f2) = Inr (Some idx, docs, metas) \<and>
      get_bm25_index B U st1 t2 coll f2 = get_bm25_index B U st1 t2 coll f1) \<and>
   (cache_valid st now \<and> chroma_collection B = Inr coll \<longrightarrow>
      hybrid_search_try B U st now q k f alpha qe =
        (case bm25_cache st of
           None \<Rightarrow> (Inr [], st)
         | Some idx \<Rightarrow>
             if or_empty (corpus_cache st) = [] then (Inr [], st)
             else (fuse_and_rank B U coll idx (or_empty (corpus_cache st))
                     (or_empty (corpus_metadatas st)) q k f alpha qe, st))) \<and>
   (\<not> cache_valid st now \<longrightarrow>
      fst (get_bm25_index B U st now coll f) =
        (case coll_get coll f of
           Inl e \<Rightarrow> Inl e
         | Inr (documents, metadatas) \<Rightarrow>
             if documents = [] then Inr (None, [], [])
             else (case bm25_new B (map (\<lambda>doc. py_split U (lower U doc)) documents) of
                     Inl e \<Rightarrow> Inl e
                   | Inr idx \<Rightarrow> Inr (Some idx, documents, metadatas))))"
proof (intro conjI impI)
  assume "cache_valid st now"
  then show "get_bm25_index B U st now coll f =
        (Inr (bm25_cache st, or_empty (corpus_cache st), or_empty (corpus_metadatas st)), st)"
    by (rule get_bm25_index_hit)
next
  assume a: "get_bm25_index B U st t1 coll f1 = (Inr (Some idx, docs, metas), st1) \<and>
    bm25_cache_time st1 = Some t0 \<and> t2 - t0 < bm25_cache_ttl st1"
  then have c: "bm25_cache st1 = Some idx \<and> or_empty (corpus_cache st1) = docs \<and>
         or_empty (corpus_metadatas st1) = metas"
    using get_bm25_index_returns_cache by blast
  with a have v: "cache_valid st1 t2" by (auto simp: cache_valid_iff)
  from v c show "fst (get_bm25_index B U st1 t2 coll f2) = Inr (Some idx, docs, metas)"
    by (simp add: get_bm25_index_hit)
  from v show "get_bm25_index B U st1 t2 coll f2 = get_bm25_index B U st1 t2 coll f1"
    by (simp add: get_bm25_index_hit)
next
  assume "cache_valid st now \<and> chroma_collection B = Inr coll"
  then show "hybrid_search_try B U st now q k f alpha qe =
        (case bm25_cache st of
           None \<Rightarrow> (Inr [], st)
         | Some idx \<Rightarrow>
             if or_empty (corpus_cache st) = [] then (Inr [], st)
             else (fuse_and_rank B U coll idx (or_empty (corpus_cache st))
                     (or_empty (corpus_metadatas st)) q k f alpha qe, st))"
    by (simp add: hybrid_search_try_def get_collection_def get_bm25_index_hit)
next
  assume "\<not> cache_valid st now"
  then show "fst (get_bm25_index B U st now coll f) =
        (case coll_get coll f of
           Inl e \<Rightarrow> Inl e
         | Inr (documents, metadatas) \<Rightarrow>
             if documents = [] then Inr (None, [], [])
             else (case bm25_new B (map (\<lambda>doc. py_split U (lower U doc)) documents) of
                     Inl e \<Rightarrow> Inl e
                   | Inr idx \<Rightarrow> Inr (Some idx, documents, metadatas)))"
    by (rule get_bm25_index_miss)
qed

text \<open>An index built without filter at time 0 is returned at time 299 under a filter.\<close>

theorem bm25_cache_ignores_filter_witness:
  "fst (get_bm25_index (example_backend example_collection) ascii_unicode
     (snd (get_bm25_index (example_backend example_collection) ascii_unicode init_rag_service 0
             example_collection None))
     299 example_collection (Some [(u ''category'', u ''x'')])) =
   Inr (Some (BM25Okapi [[u ''box'', u ''breathing'']]), [u ''Box breathing''],
         [Some example_metadata])"
proof -
  let ?B = "example_backend example_collection"
  let ?st1 = "\<lparr>bm25_cache = Some (BM25Okapi [[u ''box'', u ''breathing'']]),
     bm25_cache_time = Some 0, bm25_cache_ttl = 300,
     corpus_cache = Some [u ''Box breathing''],
     corpus_metadatas = Some [Some example_metadata], store_fetches = 1\<rparr>"
  have 1: "get_bm25_index ?B ascii_unicode init_rag_service 0 example_collection None =
    (Inr (Some (BM25Okapi [[u ''box'', u ''breathing'']]), [u ''Box breathing''],
         [Some example_metadata]), ?st1)"
    by (simp add: ex_defs)
  have 2: "bm25_cache_time ?st1 = Some 0 \<and> (299::real) - 0 < bm25_cache_ttl ?st1" by simp
  from bm25_cache_ignores_filter [THEN conjunct2, THEN conjunct1, rule_format, OF conjI [OF 1 2], THEN conjunct1]
  show ?thesis unfolding 1 by simp
qed

text \<open>
  The claim as first stated speaks of every two calls.  When the first call's filter
  matches nothing, nothing is cached, and the second call one second later builds and
  returns the index under its own filter.
\<close>

theorem bm25_cache_empty_first_call_counterexample:
  "fst (get_bm25_index (example_backend example_collection) ascii_unicode init_rag_service 0
          example_collection (Some [(u ''category'', u ''x'')])) = Inr (None, [], []) \<and>
   fst (get_bm25_index (example_backend example_collection) ascii_unicode
          (snd (get_bm25_index (example_backend example_collection) ascii_unicode
                  init_rag_service 0 example_collection (Some [(u ''category'', u ''x'')])))
          1 example_collection None) =
     Inr (Some (BM25Okapi [[u ''box'', u ''breathing'']]), [u ''Box breathing''],
          [Some example_metadata])"
  by (simp add: ex_defs)

section \<open>Properties of the hybrid retriever\<close>

lemma hybrid_search_error:
  "fst (hybrid_search_try B U st now q k f alpha qe) = Inl e \<Longrightarrow>
   fst (hybrid_search B U st now q k f alpha qe) = []"
  by (cases "hybrid_search_try B U st now q k f alpha qe"; cases e)
     (auto simp: hybrid_search_def)

text \<open>
  Claim C4.  Whenever the Document Store raises during \<open>hybrid_search\<close>, be it at the
  access to the collection, at the fetch of the corpus for the index (which this call
  makes when the cache is not valid) or at the vector query of this call (the one made
  with the embedding given or computed, \<open>min (2 * top_k) (length documents)\<close> candidates
  and the filter of the call), \<open>hybrid_search\<close> returns the empty list; its result is a
  list in every case, so no exception reaches the caller.
\<close>

theorem hybrid_search_store_error_empty:
  "(isl (chroma_collection B) \<longrightarrow> fst (hybrid_search B U st now q k f alpha qe) = []) \<and>
   (chroma_collection B = Inr coll \<and> \<not> cache_valid st now \<and> isl (coll_get coll f) \<longrightarrow>
      fst (hybrid_search B U st now q k f alpha qe) = []) \<and>
   (chroma_collection B = Inr coll \<and>
    fst (get_bm25_index B U st now coll f) = Inr (Some idx, docs, metas) \<and>
    (case qe of None \<Rightarrow> generate_embedding B q | Some e \<Rightarrow> Inr e) = Inr emb \<and>
    isl (coll_query coll emb (min (k * 2) (int (length docs))) f) \<longrightarrow>
      fst (hybrid_search B U st now q k f alpha qe) = [])"
proof (intro conjI impI)
  assume "isl (chroma_collection B)"
  then obtain e where "chroma_collection B = Inl e" by (cases "chroma_collection B") auto
  then have "fst (hybrid_search_try B U st now q k f alpha qe) = Inl VectorStoreError"
    by (simp add: hybrid_search_try_def get_collection_def)
  then show "fst (hybrid_search B U st now q k f alpha qe) = []"
    by (rule hybrid_search_error)
next
  assume a: "chroma_collection B = Inr coll \<and> \<not> cache_valid st now \<and> isl (coll_get coll f)"
  then obtain e where "coll_get coll f = Inl e" by (cases "coll_get coll f") auto
  with a have "fst (hybrid_search_try B U st now q k f alpha qe) = Inl e"
    by (simp add: hybrid_search_try_def get_collection_def get_bm25_index_def Let_def)
  then show "fst (hybrid_search B U st now q k f alpha qe) = []"
    by (rule hybrid_search_error)
next
  assume a: "chroma_collection B = Inr coll \<and>
    fst (get_bm25_index B U st now coll f) = Inr (Some idx, docs, metas) \<and>
    (case qe of None \<Rightarrow> generate_embedding B q | Some e \<Rightarrow> Inr e) = Inr emb \<and>
    isl (coll_query coll emb (min (k * 2) (int (length docs))) f)"
  then obtain e where qr: "coll_query coll emb (min (k * 2) (int (length docs))) f = Inl e"
    by (cases "coll_query coll emb (min (k * 2) (int (length docs))) f") auto
  from a have emb: "(case qe of None \<Rightarrow> generate_embedding B q | Some e \<Rightarrow> Inr e) = Inr emb"
    by simp
  have fr: "\<exists>e'. fuse_and_rank B U coll idx docs metas q k f alpha qe = Inl e'"
    by (simp add: fuse_and_rank_def Let_def emb qr split: sum.splits)
  obtain r st1 where g: "get_bm25_index B U st now coll f = (r, st1)"
    by (cases "get_bm25_index B U st now coll f")
  with a have r: "r = Inr (Some idx, docs, metas)" by simp
  show "fst (hybrid_search B U st now q k f alpha qe) = []"
  proof (cases "docs = []")
    case True
    with a g r show ?thesis
      by (simp add: hybrid_search_def hybrid_search_try_def get_collection_def)
  next
    case False
    from fr obtain e' where "fuse_and_rank B U coll idx docs metas q k f alpha qe = Inl e'"
      by blast
    with a g r False have "fst (hybrid_search_try B U st now q k f alpha qe) = Inl e'"
      by (simp add: hybrid_search_try_def get_collection_def)
    then show ?thesis by (rule hybrid_search_error)
  qed
qed

text \<open>
  A store that holds one chunk and whose vector query raises: the index is built, the
  query of the call raises and the result is the empty list.
\<close>

theorem hybrid_search_store_error_empty_witness:
  "fst (hybrid_search (example_backend failing_query_collection) ascii_unicode
          init_rag_service 0 (u ''box'') 10 None (1 / 2) (Some [1])) = []"
  using hybrid_search_store_error_empty
    [where B = "example_backend failing_query_collection" and coll = failing_query_collection
       and U = ascii_unicode and st = init_rag_service and now = 0 and f = None
       and idx = "BM25Okapi [[u ''box'', u ''breathing'']]" and docs = "[u ''Box breathing'']"
       and metas = "[Some example_metadata]" and qe = "Some [1]" and emb = "[1]"
       and k = 10 and q = "u ''box''" and alpha = "1 / 2",
     THEN conjunct2, THEN conjunct2]
  by (simp add: example_backend_def failing_query_collection_def init_rag_service_def
      get_bm25_index_def cache_valid_def py_split_def ascii_unicode_def ascii_lower_def
      ascii_is_space_def u_def Let_def)

lemma distance_map_loop_eq:
  "i + length docs \<le> length d0 \<Longrightarrow>
   distance_map_loop (d0 # ds) i docs m =
     Inr (\<lambda>d. case map_of (rev (zip docs (drop i d0))) d of
                 None \<Rightarrow> m d
               | Some x \<Rightarrow> Some (1 - x / 2))"
proof (induction docs arbitrary: i m)
  case Nil
  then show ?case by simp
next
  case (Cons doc docs)
  from Cons.prems have i: "i < length d0" and le: "Suc i + length docs \<le> length d0" by auto
  from i have dr: "drop i d0 = d0 ! i # drop (Suc i) d0"
    by (simp add: Cons_nth_drop_Suc)
  have "distance_map_loop (d0 # ds) i (doc # docs) m =
        distance_map_loop (d0 # ds) (Suc i) docs (m(doc \<mapsto> 1 - d0 ! i / 2))"
    using i by (simp add: Let_def)
  also have "\<dots> = Inr (\<lambda>d. case map_of (rev (zip docs (drop (Suc i) d0))) d of
                 None \<Rightarrow> (m(doc \<mapsto> 1 - d0 ! i / 2)) d
               | Some x \<Rightarrow> Some (1 - x / 2))"
    by (rule Cons.IH [OF le])
  also have "(\<lambda>d. case map_of (rev (zip docs (drop (Suc i) d0))) d of
                 None \<Rightarrow> (m(doc \<mapsto> 1 - d0 ! i / 2)) d
               | Some x \<Rightarrow> Some (1 - x / 2)) =
             (\<lambda>d. case map_of (rev (zip (doc # docs) (drop i d0))) d of
                 None \<Rightarrow> m d
               | Some x \<Rightarrow> Some (1 - x / 2))"
    by (rule ext) (simp add: dr map_add_def split: option.splits)
  finally show ?case .
qed

lemma build_distance_map_eq:
  assumes "qr_documents vr = [rdocs]" "qr_distances vr = [rdists]" "length rdocs \<le> length rdists"
  shows "build_distance_map vr =
     Inr (\<lambda>d. case map_of (rev (zip rdocs rdists)) d of None \<Rightarrow> None
               | Some x \<Rightarrow> Some (1 - x / 2))"
  using assms distance_map_loop_eq [of 0 rdocs rdists "[]" Map.empty]
  by (simp add: build_distance_map_def)

lemma combine_loop_eq:
  "i + length docs \<le> length ns \<Longrightarrow> ms = [] \<or> i + length docs \<le> length ms \<Longrightarrow>
   combine_loop alpha vmap ns (map Some ms) i docs acc =
     Inr (acc @ map (\<lambda>j. mk_result alpha vmap ns ms (i + j) (docs ! j)) [0..<length docs])"
proof (induction docs arbitrary: i acc)
  case Nil
  then show ?case by simp
next
  case (Cons doc docs)
  have m: "map (\<lambda>j. mk_result alpha vmap ns ms (i + j) ((doc # docs) ! j)) [0..<length (doc # docs)] =
     mk_result alpha vmap ns ms i doc #
     map (\<lambda>j. mk_result alpha vmap ns ms (Suc i + j) (docs ! j)) [0..<length docs]"
    by (simp add: upt_conv_Cons map_Suc_upt [symmetric] del: upt_Suc)
  from Cons.prems have 1: "Suc i + length docs \<le> length ns"
    and 2: "ms = [] \<or> Suc i + length docs \<le> length ms" by auto
  from Cons.prems have g: "\<not> (ms \<noteq> [] \<and> length ms \<le> i)" "\<not> length ns \<le> i" by auto
  show ?case
  proof (cases "ms = []")
    case True
    show ?thesis
      unfolding m
      using Cons.IH [OF 1 2] g(2) unfolding True
      by (simp add: mk_result_def Let_def)
  next
    case False
    with g have "i < length ms" by auto
    with False show ?thesis
      unfolding m
      using Cons.IH [OF 1 2] g(2)
      by (simp add: mk_result_def Let_def)
  qed
qed

lemma combine_loop_None:
  "j < length docs \<Longrightarrow> i + j < length metas \<Longrightarrow> metas ! (i + j) = None \<Longrightarrow>
   combine_loop alpha vmap ns metas i docs acc = Inl OtherException"
proof (induction docs arbitrary: i j acc)
  case Nil
  then show ?case by simp
next
  case (Cons doc docs)
  show ?case
  proof (cases j)
    case 0
    with Cons.prems show ?thesis by (auto simp: Let_def)
  next
    case (Suc j')
    with Cons.prems have "j' < length docs" "Suc i + j' < length metas"
      "metas ! (Suc i + j') = None" by auto
    from Cons.IH [OF this] have ih:
      "combine_loop alpha vmap ns metas (Suc i) docs acc' = Inl OtherException" for acc'
      by simp
    from Cons.prems have "metas \<noteq> []" by auto
    then show ?thesis
      by (simp add: Let_def ih split: option.splits)
  qed
qed

lemma insort_key_insert_ranked:
  "\<forall>y \<in> set ys. x < y \<Longrightarrow> insort_key (\<lambda>i. - fs i) x ys = insert_ranked fs x ys"
  by (induction ys) auto

lemma set_insert_ranked: "set (insert_ranked fs i js) = insert i (set js)"
  by (induction js) auto

lemma set_foldr_insert_ranked: "set (foldr (insert_ranked fs) xs []) = set xs"
  by (induction xs) (simp_all add: set_insert_ranked)

lemma sort_key_insert_ranked:
  "sorted_wrt (<) xs \<Longrightarrow> sort_key (\<lambda>i. - fs i) xs = foldr (insert_ranked fs) xs []"
proof (induction xs)
  case Nil
  then show ?case by simp
next
  case (Cons x xs)
  then have "sort_key (\<lambda>i. - fs i) xs = foldr (insert_ranked fs) xs []" by simp
  moreover from Cons.prems have "\<forall>y \<in> set (foldr (insert_ranked fs) xs []). x < y"
    by (simp add: set_foldr_insert_ranked)
  ultimately show ?case
    by (simp add: insort_key_insert_ranked)
qed

lemma fused_order_sort_key: "fused_order fs n = sort_key (\<lambda>i. - fs i) [0..<n]"
  by (simp add: fused_order_def sort_key_insert_ranked)

lemma insert_ranked_sorted:
  "sorted_wrt (\<lambda>i j. fs j < fs i \<or> (fs j = fs i \<and> i < j)) js \<Longrightarrow> \<forall>j \<in> set js. i < j \<Longrightarrow>
   sorted_wrt (\<lambda>i j. fs j < fs i \<or> (fs j = fs i \<and> i < j)) (insert_ranked fs i js)"
proof (induction js)
  case Nil
  then show ?case by simp
next
  case (Cons j js)
  then show ?case
    by (auto simp: set_insert_ranked)
qed

lemma foldr_insert_ranked_sorted:
  "sorted_wrt (<) xs \<Longrightarrow>
   sorted_wrt (\<lambda>i j. fs j < fs i \<or> (fs j = fs i \<and> i < j)) (foldr (insert_ranked fs) xs [])"
  by (induction xs) (simp_all add: insert_ranked_sorted set_foldr_insert_ranked)

lemma fused_order_sorted:
  "sorted_wrt (\<lambda>i j. fs j < fs i \<or> (fs j = fs i \<and> i < j)) (fused_order fs n)"
  by (simp add: fused_order_def foldr_insert_ranked_sorted)

lemma set_fused_order: "set (fused_order fs n) = {0..<n}"
  by (simp add: fused_order_def set_foldr_insert_ranked)

lemma distinct_fused_order: "distinct (fused_order fs n)"
  by (simp add: fused_order_sort_key)

lemma length_fused_order: "length (fused_order fs n) = n"
  by (simp add: fused_order_sort_key)

lemma insort_key_map:
  "insort_key f (g x) (map g ys) = map g (insort_key (\<lambda>y. f (g y)) x ys)"
  by (induction ys) simp_all

lemma sort_key_map:
  "sort_key f (map g xs) = map g (sort_key (\<lambda>y. f (g y)) xs)"
  by (induction xs) (simp_all add: insort_key_map)


lemma normalize_scores_eq:
  assumes "scores \<noteq> []"
  shows "normalize_scores scores = Inr (map (lexical_similarity scores) [0..<length scores])"
proof -
  define m where "m = (if Max (set scores) > 0 then Max (set scores) else 1)"
  have "map (\<lambda>score. score / m) scores = map (\<lambda>i. scores ! i / m) [0..<length scores]"
    by (rule nth_equalityI) simp_all
  moreover have "lexical_similarity scores = (\<lambda>i. scores ! i / m)"
    unfolding lexical_similarity_def m_def ..
  moreover have "normalize_scores scores = Inr (map (\<lambda>score. score / m) scores)"
    using assms unfolding normalize_scores_def m_def Let_def by (simp only: if_False)
  ultimately show ?thesis by simp
qed


lemma py_take_sorted:
  "sorted_wrt P xs \<Longrightarrow> sorted_wrt P (py_take k xs)"
  by (simp add: py_take_def sorted_wrt_take)

lemma lexical_similarity_range:
  assumes "\<forall>s \<in> set scores. 0 \<le> s" "i < length scores"
  shows "0 \<le> lexical_similarity scores i \<and> lexical_similarity scores i \<le> 1"
proof -
  from assms have m: "scores ! i \<le> Max (set scores)" by simp
  from assms have n: "0 \<le> scores ! i" by simp
  show ?thesis
  proof (cases "Max (set scores) > 0")
    case True
    with m n show ?thesis by (simp add: lexical_similarity_def)
  next
    case False
    with m n have "scores ! i = 0" by simp
    with False show ?thesis by (simp add: lexical_similarity_def)
  qed
qed

lemma vector_similarity_absent:
  "doc \<notin> set rdocs \<Longrightarrow> vector_similarity rdocs rdists doc = 0"
proof -
  assume "doc \<notin> set rdocs"
  then have "doc \<notin> fst ` set (rev (zip rdocs rdists))"
    by (auto dest: set_zip_leftD)
  then have "map_of (rev (zip rdocs rdists)) doc = None"
    by (simp add: map_of_eq_None_iff)
  then show ?thesis by (simp add: vector_similarity_def)
qed

lemma vector_similarity_present:
  assumes "distinct rdocs" "length rdists = length rdocs" "j < length rdocs"
  shows "vector_similarity rdocs rdists (rdocs ! j) = 1 - rdists ! j / 2"
proof -
  have d: "distinct (map fst (rev (zip rdocs rdists)))"
    using assms by (simp add: rev_map [symmetric])
  have "(rdocs ! j, rdists ! j) \<in> set (rev (zip rdocs rdists))"
    using assms by (auto simp: set_zip)
  with d have "map_of (rev (zip rdocs rdists)) (rdocs ! j) = Some (rdists ! j)"
    by (rule map_of_is_SomeI)
  then show ?thesis by (simp add: vector_similarity_def)
qed

lemma score_key_fused_result:
  "score_key (fused_result alpha docs ms scores rdocs rdists i) =
     fused_score alpha docs scores rdocs rdists i"
  by (simp add: score_key_def fused_result_def Let_def)

lemma sort_descending_fused:
  "sort_descending score_key (map (fused_result alpha docs ms scores rdocs rdists) [0..<n]) =
     map (fused_result alpha docs ms scores rdocs rdists)
       (fused_order (fused_score alpha docs scores rdocs rdists) n)"
  by (simp add: sort_descending_def sort_key_map score_key_fused_result fused_order_sort_key)

lemma fuse_and_rank_eq:
  assumes docs: "docs \<noteq> []"
    and sc: "bm25_get_scores B idx (py_split U (lower U q)) = Inr scores"
    and len: "length scores = length docs"
    and md: "ms = [] \<or> length docs \<le> length ms"
    and emb: "(case qe of None \<Rightarrow> generate_embedding B q | Some e \<Rightarrow> Inr e) = Inr emb"
    and qr: "coll_query coll emb (min (k * 2) (int (length docs))) f = Inr vr"
    and vr: "qr_documents vr = [rdocs]" "qr_distances vr = [rdists]"
            "length rdocs \<le> length rdists"
  shows "fuse_and_rank B U coll idx docs (map Some ms) q k f alpha qe =
    Inr (fused_ranking alpha k docs ms scores rdocs rdists)"
proof -
  let ?ns = "map (lexical_similarity scores) [0..<length scores]"
  let ?vmap = "\<lambda>d. case map_of (rev (zip rdocs rdists)) d of None \<Rightarrow> None
               | Some x \<Rightarrow> Some (1 - x / 2)"
  from docs len have ne: "scores \<noteq> []" by auto
  have cl: "combine_loop alpha ?vmap ?ns (map Some ms) 0 docs [] =
    Inr (map (\<lambda>j. mk_result alpha ?vmap ?ns ms (0 + j) (docs ! j)) [0..<length docs])"
    using combine_loop_eq [of 0 docs ?ns ms alpha ?vmap "[]"] len md by simp
  have mk: "map (\<lambda>j. mk_result alpha ?vmap ?ns ms (0 + j) (docs ! j)) [0..<length docs] =
    map (fused_result alpha docs ms scores rdocs rdists) [0..<length docs]"
  proof (rule map_cong [OF refl])
    fix j assume "j \<in> set [0..<length docs]"
    then have j: "j < length scores" using len by simp
    show "mk_result alpha ?vmap ?ns ms (0 + j) (docs ! j) =
      fused_result alpha docs ms scores rdocs rdists j"
      using j
      by (simp add: mk_result_def fused_result_def fused_score_def vector_similarity_def
          Let_def split: option.splits)
  qed
  show ?thesis
    by (simp only: fuse_and_rank_def Let_def sc normalize_scores_eq [OF ne] emb qr
        build_distance_map_eq [OF vr] cl mk sort_descending_fused fused_ranking_def sum.case)
qed

lemma lexical_similarity_claimed:
  assumes "\<forall>s \<in> set scores. 0 \<le> s" "i < length scores"
  shows "lexical_similarity scores i = claimed_lexical_similarity scores i"
proof -
  from assms have "0 \<le> scores ! i" "scores ! i \<le> Max (set scores)" by simp_all
  then have "0 \<le> Max (set scores)" by simp
  then show ?thesis
    by (auto simp: lexical_similarity_def claimed_lexical_similarity_def)
qed

lemma fused_ranking_descending:
  "sorted_wrt (\<lambda>a b. the (score b) \<le> the (score a))
     (fused_ranking alpha k docs ms scores rdocs rdists)"
proof -
  let ?fs = "fused_score alpha docs scores rdocs rdists"
  have "sorted_wrt (\<lambda>i j. ?fs j \<le> ?fs i) (fused_order ?fs (length docs))"
    by (rule sorted_wrt_mono_rel [OF _ fused_order_sorted]) auto
  then have "sorted_wrt (\<lambda>a b. the (score b) \<le> the (score a))
     (map (fused_result alpha docs ms scores rdocs rdists) (fused_order ?fs (length docs)))"
    by (simp add: sorted_wrt_map fused_result_def Let_def)
  then show ?thesis
    unfolding fused_ranking_def by (rule py_take_sorted)
qed

text \<open>
  What \<open>hybrid_search\<close> returns on a non-empty corpus when the external calls succeed
  (the index is at hand, every chunk has a metadata dict, the lexical scorer returns one
  score per chunk, the embedding is given or computed, the vector query returns its texts
  with one distance each).  Every chunk of the full corpus gets the score
  \<open>alpha * vector_similarity + (1 - alpha) * lexical_similarity\<close>.  The rank order holds
  every chunk of the corpus once; a chunk stands before another when its fused score is
  higher, or when the scores are equal and it comes first in the corpus.  The first
  \<open>top_k\<close> results of that order are returned, so the returned scores are descending.
  Vector similarity is looked up by chunk text: it is 0 for a text outside the vector
  result set and \<open>1 - distance / 2\<close> for a text in it.  Lexical similarity is the score
  divided by the maximum score, the maximum being replaced by 1 when it is not positive;
  when no score is negative this is the normalisation of the specification (only a
  maximum of 0 is replaced by 1) and it lies in \<open>[0, 1]\<close>.
\<close>

theorem hybrid_search_fused_ranking:
  assumes "chroma_collection B = Inr coll"
    and "get_bm25_index B U st now coll f = (Inr (Some idx, docs, map Some ms), st')"
    and "docs \<noteq> []"
    and "bm25_get_scores B idx (py_split U (lower U q)) = Inr scores"
    and "length scores = length docs"
    and "ms = [] \<or> length docs \<le> length ms"
    and "(case qe of None \<Rightarrow> generate_embedding B q | Some e \<Rightarrow> Inr e) = Inr emb"
    and "coll_query coll emb (min (k * 2) (int (length docs))) f = Inr vr"
    and "qr_documents vr = [rdocs]" "qr_distances vr = [rdists]"
    and "length rdists = length rdocs"
  shows "hybrid_search B U st now q k f alpha qe =
           (fused_ranking alpha k docs ms scores rdocs rdists, st') \<and>
         (0 \<le> k \<longrightarrow>
            fused_ranking alpha k docs ms scores rdocs rdists =
              take (nat k)
                (map (fused_result alpha docs ms scores rdocs rdists)
                   (fused_order (fused_score alpha docs scores rdocs rdists) (length docs)))) \<and>
         set (fused_order (fused_score alpha docs scores rdocs rdists) (length docs)) =
           {0..<length docs} \<and>
         distinct (fused_order (fused_score alpha docs scores rdocs rdists) (length docs)) \<and>
         sorted_wrt
           (\<lambda>i j. fused_score alpha docs scores rdocs rdists j <
                     fused_score alpha docs scores rdocs rdists i \<or>
                   (fused_score alpha docs scores rdocs rdists j =
                      fused_score alpha docs scores rdocs rdists i \<and> i < j))
           (fused_order (fused_score alpha docs scores rdocs rdists) (length docs)) \<and>
         (\<forall>i < length docs.
            content (fused_result alpha docs ms scores rdocs rdists i) = docs ! i \<and>
            score (fused_result alpha docs ms scores rdocs rdists i) =
              Some (alpha * vector_similarity rdocs rdists (docs ! i) +
                    (1 - alpha) * lexical_similarity scores i)) \<and>
         sorted_wrt (\<lambda>a b. the (score b) \<le> the (score a))
           (fst (hybrid_search B U st now q k f alpha qe)) \<and>
         (0 \<le> k \<longrightarrow> length (fst (hybrid_search B U st now q k f alpha qe)) =
                        min (nat k) (length docs)) \<and>
         (\<forall>doc. doc \<notin> set rdocs \<longrightarrow> vector_similarity rdocs rdists doc = 0) \<and>
         (distinct rdocs \<longrightarrow>
            (\<forall>j < length rdocs. vector_similarity rdocs rdists (rdocs ! j) = 1 - rdists ! j / 2)) \<and>
         ((\<forall>s \<in> set scores. 0 \<le> s) \<longrightarrow>
            (\<forall>i < length docs.
               lexical_similarity scores i = claimed_lexical_similarity scores i \<and>
               0 \<le> lexical_similarity scores i \<and> lexical_similarity scores i \<le> 1))"
proof (intro conjI)
  let ?fs = "fused_score alpha docs scores rdocs rdists"
  have "fuse_and_rank B U coll idx docs (map Some ms) q k f alpha qe =
    Inr (fused_ranking alpha k docs ms scores rdocs rdists)"
    using assms by (intro fuse_and_rank_eq) simp_all
  with assms(1,2,3)
  show hs: "hybrid_search B U st now q k f alpha qe =
           (fused_ranking alpha k docs ms scores rdocs rdists, st')"
    by (simp add: hybrid_search_def hybrid_search_try_def get_collection_def)
  show "0 \<le> k \<longrightarrow>
            fused_ranking alpha k docs ms scores rdocs rdists =
              take (nat k)
                (map (fused_result alpha docs ms scores rdocs rdists)
                   (fused_order ?fs (length docs)))"
    by (simp add: fused_ranking_def py_take_def)
  show "set (fused_order ?fs (length docs)) = {0..<length docs}"
    by (rule set_fused_order)
  show "distinct (fused_order ?fs (length docs))"
    by (rule distinct_fused_order)
  show "sorted_wrt (\<lambda>i j. ?fs j < ?fs i \<or> (?fs j = ?fs i \<and> i < j))
           (fused_order ?fs (length docs))"
    by (rule fused_order_sorted)
  show "\<forall>i < length docs.
            content (fused_result alpha docs ms scores rdocs rdists i) = docs ! i \<and>
            score (fused_result alpha docs ms scores rdocs rdists i) =
              Some (alpha * vector_similarity rdocs rdists (docs ! i) +
                    (1 - alpha) * lexical_similarity scores i)"
    by (simp add: fused_result_def fused_score_def Let_def)
  show "sorted_wrt (\<lambda>a b. the (score b) \<le> the (score a))
           (fst (hybrid_search B U st now q k f alpha qe))"
    unfolding hs fst_conv by (rule fused_ranking_descending)
  show "0 \<le> k \<longrightarrow> length (fst (hybrid_search B U st now q k f alpha qe)) =
                        min (nat k) (length docs)"
    unfolding hs fst_conv
    by (simp add: fused_ranking_def py_take_def length_fused_order min.commute)
  show "\<forall>doc. doc \<notin> set rdocs \<longrightarrow> vector_similarity rdocs rdists doc = 0"
    by (simp add: vector_similarity_absent)
  show "distinct rdocs \<longrightarrow>
            (\<forall>j < length rdocs. vector_similarity rdocs rdists (rdocs ! j) = 1 - rdists ! j / 2)"
    using assms(11) by (simp add: vector_similarity_present)
  show "(\<forall>s \<in> set scores. 0 \<le> s) \<longrightarrow>
            (\<forall>i < length docs.
               lexical_similarity scores i = claimed_lexical_similarity scores i \<and>
               0 \<le> lexical_similarity scores i \<and> lexical_similarity scores i \<le> 1)"
    using assms(5) lexical_similarity_range [of scores] lexical_similarity_claimed [of scores]
    by auto
qed

text \<open>
  Three chunks, query \<open>anxiety\<close>, \<open>alpha = 1/2\<close>, \<open>top_k = 2\<close>: the third chunk is not
  in the vector result set and is ranked second by its lexical score.
\<close>

theorem hybrid_search_fused_ranking_witness:
  "fst (hybrid_search (example_backend three_chunk_collection) ascii_unicode init_rag_service
          0 (u ''anxiety'') 2 None (1 / 2) (Some [1])) =
     [\<lparr>content = u ''Box breathing reduces anxiety'', source = u ''doc1'', page = 3,
       distance = 1 / 4, score = Some (3 / 4)\<rparr>,
      \<lparr>content = u ''Anxiety and sleep'', source = u ''Unknown'', page = 0,
       distance = 1 / 2, score = Some (1 / 2)\<rparr>]"
proof -
  let ?B = "example_backend three_chunk_collection"
  let ?docs = "[u ''Box breathing reduces anxiety'', u ''Sleep hygiene'', u ''Anxiety and sleep'']"
  let ?ms = "[\<lparr>md_source = Some (u ''doc1''), md_page = Some 3\<rparr>,
              \<lparr>md_source = Some (u ''doc2''), md_page = Some 7\<rparr>,
              \<lparr>md_source = None, md_page = None\<rparr>]"
  let ?idx = "BM25Okapi [[u ''box'', u ''breathing'', u ''reduces'', u ''anxiety''],
                         [u ''sleep'', u ''hygiene''], [u ''anxiety'', u ''and'', u ''sleep'']]"
  let ?rdocs = "[u ''Sleep hygiene'', u ''Box breathing reduces anxiety'']"
  let ?vr = "\<lparr>qr_documents = [?rdocs], qr_distances = [[1 / 2, 1 :: real]]\<rparr>"
  let ?g = "get_bm25_index ?B ascii_unicode init_rag_service 0 three_chunk_collection None"
  have p1: "chroma_collection ?B = Inr three_chunk_collection"
    by (simp add: example_backend_def)
  have "fst ?g = Inr (Some ?idx, ?docs, map Some ?ms)"
    by (simp add: example_backend_def three_chunk_collection_def init_rag_service_def
        get_bm25_index_def cache_valid_def py_split_def ascii_unicode_def ascii_lower_def
        ascii_is_space_def u_def Let_def)
  then have p2: "?g = (Inr (Some ?idx, ?docs, map Some ?ms), snd ?g)"
    by (cases ?g) simp
  have p4: "bm25_get_scores ?B ?idx (py_split ascii_unicode (lower ascii_unicode (u ''anxiety'')))
      = Inr [1, 0, 1]"
    by (simp add: example_backend_def overlap_scores_def py_split_def ascii_unicode_def
        ascii_lower_def ascii_is_space_def u_def)
  have p8: "coll_query three_chunk_collection [1] (min (2 * 2) (int (length ?docs))) None = Inr ?vr"
    by (simp add: three_chunk_collection_def)
  have ev: "fused_ranking (1 / 2) 2 ?docs ?ms [1, 0, 1] ?rdocs [1 / 2, 1] =
     [\<lparr>content = u ''Box breathing reduces anxiety'', source = u ''doc1'', page = 3,
       distance = 1 / 4, score = Some (3 / 4)\<rparr>,
      \<lparr>content = u ''Anxiety and sleep'', source = u ''Unknown'', page = 0,
       distance = 1 / 2, score = Some (1 / 2)\<rparr>]"
    by (simp add: fused_ranking_def fused_result_def fused_score_def fused_order_def
        lexical_similarity_def vector_similarity_def py_take_def u_def Let_def upt_rec)
  from hybrid_search_fused_ranking
    [where B = ?B and coll = three_chunk_collection and U = ascii_unicode
       and st = init_rag_service and now = 0 and f = None and idx = ?idx and docs = ?docs
       and ms = ?ms and st' = "snd ?g" and q = "u ''anxiety''" and scores = "[1, 0, 1]"
       and qe = "Some [1]" and emb = "[1]" and k = 2 and vr = ?vr and rdocs = ?rdocs
       and rdists = "[1 / 2, 1]" and alpha = "1 / 2", OF p1 p2 _ p4 _ _ _ p8, THEN conjunct1]
  have "hybrid_search ?B ascii_unicode init_rag_service 0 (u ''anxiety'') 2 None (1 / 2)
      (Some [1]) = (fused_ranking (1 / 2) 2 ?docs ?ms [1, 0, 1] ?rdocs [1 / 2, 1], snd ?g)"
    by simp
  with ev show ?thesis by simp
qed

lemma fuse_and_rank_none_metadata:
  assumes "j < length docs" "j < length metas" "metas ! j = None"
  shows "\<exists>e. fuse_and_rank B U coll idx docs metas q k f alpha qe = Inl e"
  using combine_loop_None [of j docs 0 metas, OF assms(1)] assms(2,3)
  by (simp add: fuse_and_rank_def Let_def split: sum.splits)

text \<open>
  A chunk stored without metadata has the entry \<^verbatim>\<open>None\<close> in \<^verbatim>\<open>metadatas\<close>;
  \<^verbatim>\<open>metadata.get\<close> raises on it, and \<open>hybrid_search\<close> returns the empty list.
\<close>

theorem hybrid_search_none_metadata_empty:
  assumes "chroma_collection B = Inr coll"
    and "fst (get_bm25_index B U st now coll f) = Inr (Some idx, docs, metas)"
    and "j < length docs" "j < length metas" "metas ! j = None"
  shows "fst (hybrid_search B U st now q k f alpha qe) = []"
proof -
  obtain r st1 where g: "get_bm25_index B U st now coll f = (r, st1)"
    by (cases "get_bm25_index B U st now coll f")
  with assms(2) have r: "r = Inr (Some idx, docs, metas)" by simp
  from assms(3) have ne: "docs \<noteq> []" by auto
  from fuse_and_rank_none_metadata [OF assms(3-5)]
  obtain e where "fuse_and_rank B U coll idx docs metas q k f alpha qe = Inl e" by blast
  with assms(1) g r ne have "fst (hybrid_search_try B U st now q k f alpha qe) = Inl e"
    by (simp add: hybrid_search_try_def get_collection_def)
  then show ?thesis by (rule hybrid_search_error)
qed

text \<open>Two chunks, the second stored without metadata.\<close>

theorem hybrid_search_none_metadata_empty_witness:
  "fst (hybrid_search (example_backend missing_metadata_collection) ascii_unicode
          init_rag_service 0 (u ''box'') 10 None (1 / 2) (Some [1])) = []"
  using hybrid_search_none_metadata_empty
    [where B = "example_backend missing_metadata_collection"
       and coll = missing_metadata_collection and U = ascii_unicode
       and st = init_rag_service and now = 0 and f = None
       and idx = "BM25Okapi [[u ''box'', u ''breathing''], [u ''sleep'', u ''hygiene'']]"
       and docs = "[u ''Box breathing'', u ''Sleep hygiene'']"
       and metas = "[Some example_metadata, None]" and j = 1]
  by (simp add: example_backend_def missing_metadata_collection_def init_rag_service_def
      get_bm25_index_def cache_valid_def py_split_def ascii_unicode_def ascii_lower_def
      ascii_is_space_def u_def Let_def)

text \<open>
  Claim C2, at a failing input.  The claim has the lexical scores normalised into
  \<open>[0, 1]\<close> by the maximum score, a maximum of 0 being treated as 1, and the code
  announces the same (\<^verbatim>\<open># Normalize BM25 scores to 0-1 range\<close>).  The guard of the
  division is \<^verbatim>\<open>max(bm25_scores) > 0\<close>, so with a negative maximum (\<^verbatim>\<open>rank_bm25\<close> scores
  a term that occurs in more than half of the documents negatively, as on a corpus of one
  document) the code divides by 1 and keeps the negative score: for \<open>alpha = 0\<close> the
  returned fused score is \<open>- 1/4\<close>, outside \<open>[0, 1]\<close>, where the formula of the claim
  gives 1.
\<close>

theorem hybrid_search_negative_scores_counterexample:
  "map score (fst (hybrid_search (negative_score_backend example_collection) ascii_unicode
      init_rag_service 0 (u ''box'') 1 None 0 (Some [1]))) = [Some (- 1 / 4)] \<and>
   0 * vector_similarity [u ''Box breathing''] [1 / 2] (u ''Box breathing'') +
     (1 - 0) * claimed_lexical_similarity [- 1 / 4] 0 = 1"
  by (simp add: hybrid_search_def hybrid_search_try_def fuse_and_rank_def get_collection_def
      negative_score_backend_def example_collection_def example_metadata_def
      init_rag_service_def get_bm25_index_def cache_valid_def py_split_def ascii_unicode_def
      ascii_lower_def ascii_is_space_def u_def Let_def normalize_scores_def
      build_distance_map_def py_take_def sort_descending_def
      claimed_lexical_similarity_def)

section \<open>Properties of the result cache and of the pipeline\<close>

lemma py_join_nonempty:
  "xs \<noteq> [] \<Longrightarrow> \<forall>x \<in> set xs. x \<noteq> [] \<Longrightarrow> py_join sep xs \<noteq> []"
  by (induction sep xs rule: py_join.induct) simp_all

lemma build_context_Nil: "build_context [] = ([], [])"
  by (simp add: build_context_def)

lemma build_context_empty_iff: "fst (build_context rs) = [] \<longleftrightarrow> rs = []"
proof (cases "rs = []")
  case True
  then show ?thesis by (simp add: build_context_Nil)
next
  case False
  have "context_part i r \<noteq> []" for i r by (simp add: context_part_def u_def)
  then have "py_join (u ''\<newline>\<newline>'')
      (map (\<lambda>k. context_part (1 + int k) (rs ! k)) [0..<length rs]) \<noteq> []"
    using False by (intro py_join_nonempty) auto
  then show ?thesis
    using False by (simp add: build_context_def build_context_loop_eq)
qed

text \<open>
  Claim C6.  For every embedding \<open>e\<close>, response text \<open>r\<close> and sources list \<open>s\<close>: with
  the Redis client initialised and reachable, a positive TTL and a JSON encoding that
  reads back what it wrote, \<open>set(e, r, s)\<close> succeeds and a following \<open>get(e)\<close> before
  the TTL has elapsed returns exactly \<open>(r, s)\<close>.  The cache key is the prefix followed by
  the first 16 characters of the digest of the embedding: it is a function of the
  embedding alone, and embeddings with the same digest have the same key.
\<close>

theorem semantic_cache_round_trip:
  assumes "redis_client W = Some db" and "redis_up W" and "0 < ttl C"
    and "now_get < now_set + ttl C"
    and "loads_cache_data J (dumps_cache_data J (r, s)) = Inr (r, s)"
    and "dumps_cache_data J (r, s) \<noteq> []"
  shows "fst (semantic_cache_set J C W now_set e r s) = True \<and>
         semantic_cache_get J C (snd (semantic_cache_set J C W now_set e r s)) now_get e =
           Some (r, s) \<and>
         generate_cache_key J C e = cache_prefix C @ take 16 (embedding_hexdigest J e) \<and>
         (embedding_hexdigest J e' = embedding_hexdigest J e \<longrightarrow>
            generate_cache_key J C e' = generate_cache_key J C e)"
  using assms
  by (simp add: semantic_cache_set_def semantic_cache_get_def redis_get_def
      generate_cache_key_def Let_def)

text \<open>An entry written at time 0 is read back at time 3599, the TTL being 3600.\<close>

theorem semantic_cache_round_trip_witness:
  "semantic_cache_get example_codec semantic_cache
     (snd (semantic_cache_set example_codec semantic_cache empty_redis 0 [1] (u ''hello'') []))
     3599 [1] = Some (u ''hello'', [])"
  using semantic_cache_round_trip [of empty_redis Map.empty semantic_cache 3599 0 example_codec "u ''hello''" "[]" "[1]"]
  by (simp add: empty_redis_def semantic_cache_def example_codec_def)

text \<open>
  Claim C3.  In every call of \<open>rag_query\<close> that reaches retrieval (the embedding is
  computed and, when the cache is used, the lookup misses) and in which the assembled
  context is empty, the reply is the fixed insufficient-knowledge message with an empty
  sources list, and the state of the cache, the counter of \<open>set\<close> calls included, is
  the one before the call, also when \<open>use_cache\<close> is true; the generator is not called
  either.  The context is empty exactly when there is no ranked result.
\<close>

theorem rag_query_empty_context:
  assumes "generate_embedding B query = Inr e"
    and "use_cache \<longrightarrow>
           semantic_cache_get J semantic_cache (cache W) (t_cache_get clk) e = None"
    and "fst (build_context
           (rerank_results query
              (fst (hybrid_search B U (svc W) (t_search clk) query 10 None (1 / 2) (Some e)))
              top_k)) = []"
  shows "fst (rag_query B U L J W clk query h top_k use_cache db) = (no_context_message, []) \<and>
         cache (snd (rag_query B U L J W clk query h top_k use_cache db)) = cache W \<and>
         gen (snd (rag_query B U L J W clk query h top_k use_cache db)) = gen W \<and>
         (fst (build_context rs) = [] \<longleftrightarrow> rs = [])"
  using assms
  by (auto simp: rag_query_def rag_query_try_def Let_def build_context_empty_iff
      build_context_Nil split: prod.splits option.splits)

text \<open>An empty Document Store, with the cache in use.\<close>

theorem rag_query_empty_context_witness:
  "fst (rag_query (example_backend empty_collection) ascii_unicode silent_llm example_codec
          init_world \<lparr>t_cache_get = 0, t_search = 1, t_prompt = 2, t_cache_set = 3\<rparr>
          (u ''hi'') None 3 True None) = (no_context_message, []) \<and>
   set_calls (cache (snd (rag_query (example_backend empty_collection) ascii_unicode silent_llm
          example_codec init_world
          \<lparr>t_cache_get = 0, t_search = 1, t_prompt = 2, t_cache_set = 3\<rparr>
          (u ''hi'') None 3 True None))) = 0"
proof -
  let ?B = "example_backend empty_collection"
  let ?clk = "\<lparr>t_cache_get = 0, t_search = 1, t_prompt = 2, t_cache_set = 3\<rparr>"
  have 1: "generate_embedding ?B (u ''hi'') = Inr [1]"
    by (simp add: generate_embedding_def example_backend_def)
  have 2: "True \<longrightarrow> semantic_cache_get example_codec semantic_cache (cache init_world)
      (t_cache_get ?clk) [1] = None"
    by (simp add: semantic_cache_get_def init_world_def empty_redis_def redis_get_def)
  have "fst (hybrid_search ?B ascii_unicode (svc init_world) (t_search ?clk) (u ''hi'') 10 None
      (1 / 2) (Some [1])) = []"
    by (simp add: hybrid_search_def hybrid_search_try_def get_collection_def
        example_backend_def empty_collection_def init_world_def init_rag_service_def
        get_bm25_index_def cache_valid_def Let_def)
  then have 3: "fst (build_context (rerank_results (u ''hi'')
      (fst (hybrid_search ?B ascii_unicode (svc init_world) (t_search ?clk) (u ''hi'') 10 None
      (1 / 2) (Some [1]))) 3)) = []"
    by (simp add: rerank_results_def build_context_def)
  from rag_query_empty_context [OF 1 2 3, of silent_llm None None]
  show ?thesis by (simp add: init_world_def empty_redis_def)
qed

end
